theory Spec2Isabelle
  imports Main "HOL-Library.Word"
begin

section \<open>JSON values\<close>

text \<open>
  Envelopes, payloads and contact records are plain JSON values once parsed. An object is
  kept as the list of its own properties in enumeration order, which is the order
  \<^verbatim>\<open>JSON.stringify\<close> walks.

  A number of the code is a double. \<open>js_number\<close> holds the integers from \<open>-2\<^sup>5\<^sup>3\<close> to
  \<open>2\<^sup>5\<^sup>3 - 1\<close> (a signed word of 54 bits read with \<open>sint\<close>; each of them is a double, and
  \<open>SafeInteger 0\<close> is the positive zero), the negative zero, the two infinities (which
  \<^verbatim>\<open>JSON.parse\<close> yields for a literal such as \<^verbatim>\<open>1e999\<close>) and \<^verbatim>\<open>NaN\<close>. Fractions and
  integers of larger magnitude are not represented.
\<close>

datatype js_number =
    SafeInteger "54 word"
  | NegativeZero
  | PositiveInfinity
  | NegativeInfinity
  | NotANumber

datatype json =
    JNull
  | JBool bool
  | JNum js_number
  | JStr string
  | JArr "json list"
  | JObj "(string \<times> json) list"

text \<open>
  JavaScript truthiness of a value that may be \<^verbatim>\<open>undefined\<close> (\<open>None\<close>):
  \<^verbatim>\<open>undefined\<close>, \<^verbatim>\<open>null\<close>, \<^verbatim>\<open>false\<close>, both zeros, \<^verbatim>\<open>NaN\<close> and the empty string are falsy.
\<close>

fun truthy :: "json option \<Rightarrow> bool" where
  "truthy None = False"
| "truthy (Some JNull) = False"
| "truthy (Some (JBool b)) = b"
| "truthy (Some (JNum n)) = (n \<noteq> SafeInteger 0 \<and> n \<noteq> NegativeZero \<and> n \<noteq> NotANumber)"
| "truthy (Some (JStr s)) = (s \<noteq> [])"
| "truthy (Some (JArr xs)) = True"
| "truthy (Some (JObj kvs)) = True"

text \<open>
  Property access \<^verbatim>\<open>v.k\<close> on a parsed value: an object yields the property or
  \<^verbatim>\<open>undefined\<close> (\<open>None\<close>); the names the code reads are never own properties of a
  string, number, boolean or array, so those yield \<^verbatim>\<open>undefined\<close> as well. (On
  \<^verbatim>\<open>null\<close> a plain access throws; the callers below only read values that passed the
  envelope check or use \<^verbatim>\<open>?.\<close>.)
\<close>

fun get_prop :: "json \<Rightarrow> string \<Rightarrow> json option" where
  "get_prop (JObj kvs) k = map_of kvs k"
| "get_prop v k = None"

text \<open>Optional chaining \<^verbatim>\<open>v?.k\<close> on a value that may be \<^verbatim>\<open>undefined\<close>.\<close>

fun opt_prop :: "json option \<Rightarrow> string \<Rightarrow> json option" where
  "opt_prop None k = None"
| "opt_prop (Some v) k = get_prop v k"

text \<open>
  Assignment \<^verbatim>\<open>o.k = v\<close>: an existing property keeps its place, a new one is added
  last.
\<close>

fun assign_props :: "(string \<times> json) list \<Rightarrow> string \<Rightarrow> json \<Rightarrow> (string \<times> json) list" where
  "assign_props [] k v = [(k, v)]"
| "assign_props ((k', v') # kvs) k v =
     (if k' = k then (k, v) # kvs else (k', v') # assign_props kvs k v)"

fun set_prop :: "json \<Rightarrow> string \<Rightarrow> json \<Rightarrow> json" where
  "set_prop (JObj kvs) k v = JObj (assign_props kvs k v)"
| "set_prop j k v = j"

text \<open>
  An object literal whose property values may be \<^verbatim>\<open>undefined\<close>: such properties are
  never serialised and read back as \<^verbatim>\<open>undefined\<close>, so they are left out.
\<close>

fun drop_undefined :: "(string \<times> json option) list \<Rightarrow> (string \<times> json) list" where
  "drop_undefined [] = []"
| "drop_undefined ((k, None) # kvs) = drop_undefined kvs"
| "drop_undefined ((k, Some v) # kvs) = (k, v) # drop_undefined kvs"

section \<open>JSON.stringify\<close>

definition digit_char :: "nat \<Rightarrow> char" where
  "digit_char d = char_of (48 + d)"

definition hex_digit :: "nat \<Rightarrow> char" where
  "hex_digit d = (if d < 10 then char_of (48 + d) else char_of (87 + d))"

fun show_nat :: "nat \<Rightarrow> string" where
  "show_nat n = (if n < 10 then [digit_char n] else show_nat (n div 10) @ [digit_char (n mod 10)])"

declare show_nat.simps [simp del]

definition show_int :: "int \<Rightarrow> string" where
  "show_int i = (if i < 0 then CHR ''-'' # show_nat (nat (- i)) else show_nat (nat i))"

text \<open>
  \<^verbatim>\<open>Number::toString\<close>: an integer below \<^verbatim>\<open>10^21\<close> in magnitude is written in plain decimal,
  both zeros as \<^verbatim>\<open>0\<close>.
\<close>

definition Number_toString :: "js_number \<Rightarrow> string" where
  "Number_toString x =
    (case x of
       SafeInteger w \<Rightarrow> show_int (sint w)
     | NegativeZero \<Rightarrow> ''0''
     | PositiveInfinity \<Rightarrow> ''Infinity''
     | NegativeInfinity \<Rightarrow> ''-Infinity''
     | NotANumber \<Rightarrow> ''NaN'')"

text \<open>
  The escape of one character inside a string literal: the quotation mark, the backslash,
  the five short escapes, \<^verbatim>\<open>\u00XX\<close> for the other control characters, and the
  character itself otherwise.
\<close>

definition quote_char :: "char \<Rightarrow> string" where
  "quote_char c =
    (let n = (of_char c :: nat) in
     if n = 0x22 then [CHR 0x5C, CHR 0x22]
     else if n = 0x5C then [CHR 0x5C, CHR 0x5C]
     else if n = 0x08 then [CHR 0x5C, CHR ''b'']
     else if n = 0x0C then [CHR 0x5C, CHR ''f'']
     else if n = 0x0A then [CHR 0x5C, CHR ''n'']
     else if n = 0x0D then [CHR 0x5C, CHR ''r'']
     else if n = 0x09 then [CHR 0x5C, CHR ''t'']
     else if n < 0x20 then
       [CHR 0x5C, CHR ''u'', CHR ''0'', CHR ''0'', hex_digit (n div 16), hex_digit (n mod 16)]
     else [c])"

definition quote_string :: "string \<Rightarrow> string" where
  "quote_string s = CHR 0x22 # concat (map quote_char s) @ [CHR 0x22]"

text \<open>
  \<^verbatim>\<open>JSON.stringify\<close> without an indent argument: no whitespace between tokens, array
  elements and object properties in their own order, separated by commas. A finite number
  is written as \<^verbatim>\<open>Number::toString\<close> writes it; an infinity and \<^verbatim>\<open>NaN\<close> are written
  \<^verbatim>\<open>null\<close>.
\<close>

definition number_json :: "js_number \<Rightarrow> string" where
  "number_json x =
    (case x of
       SafeInteger w \<Rightarrow> show_int (sint w)
     | NegativeZero \<Rightarrow> ''0''
     | PositiveInfinity \<Rightarrow> ''null''
     | NegativeInfinity \<Rightarrow> ''null''
     | NotANumber \<Rightarrow> ''null'')"

fun JSON_stringify :: "json \<Rightarrow> string"
  and stringify_elems :: "json list \<Rightarrow> string"
  and stringify_props :: "(string \<times> json) list \<Rightarrow> string" where
  "JSON_stringify JNull = ''null''"
| "JSON_stringify (JBool b) = (if b then ''true'' else ''false'')"
| "JSON_stringify (JNum n) = number_json n"
| "JSON_stringify (JStr s) = quote_string s"
| "JSON_stringify (JArr xs) = ''['' @ stringify_elems xs @ '']''"
| "JSON_stringify (JObj kvs) = ''{'' @ stringify_props kvs @ ''}''"
| "stringify_elems [] = []"
| "stringify_elems [x] = JSON_stringify x"
| "stringify_elems (x # y # ys) = JSON_stringify x @ '','' @ stringify_elems (y # ys)"
| "stringify_props [] = []"
| "stringify_props [(k, v)] = quote_string k @ '':'' @ JSON_stringify v"
| "stringify_props ((k, v) # p # ps) =
     quote_string k @ '':'' @ JSON_stringify v @ '','' @ stringify_props (p # ps)"

section \<open>Envelope codec: signing and verification (ai2ai-crypto.js, src/client.js)\<close>

text \<open>
  The Ed25519 primitives are Node's: \<open>crypto_sign bytes key\<close> stands for
  \<^verbatim>\<open>crypto.sign(null, Buffer.from(bytes), createPrivateKey(key)).toString('base64')\<close> and
  \<open>crypto_verify bytes key sig\<close> for
  \<^verbatim>\<open>crypto.verify(null, Buffer.from(bytes), createPublicKey(key), Buffer.from(sig, 'base64'))\<close>,
  with \<open>None\<close> when the call throws. They are parameters of the model.
\<close>

text \<open>The string \<^verbatim>\<open>payload\<close> built by \<^verbatim>\<open>signMessage\<close>, an object literal in source order.\<close>

definition signMessage_payload :: "json \<Rightarrow> string" where
  "signMessage_payload envelope =
    JSON_stringify (JObj (drop_undefined
      [(''id'', get_prop envelope ''id''),
       (''timestamp'', get_prop envelope ''timestamp''),
       (''from'', get_prop envelope ''from''),
       (''to'', get_prop envelope ''to''),
       (''conversation'', get_prop envelope ''conversation''),
       (''type'', get_prop envelope ''type''),
       (''intent'', get_prop envelope ''intent''),
       (''payload'', get_prop envelope ''payload'')]))"

definition signMessage :: "(string \<Rightarrow> 'sk \<Rightarrow> string) \<Rightarrow> json \<Rightarrow> 'sk \<Rightarrow> string" where
  "signMessage crypto_sign envelope privateKeyPem =
     crypto_sign (signMessage_payload envelope) privateKeyPem"

text \<open>The string \<^verbatim>\<open>payload\<close> built by \<^verbatim>\<open>verifyMessage\<close>: its own copy of the literal.\<close>

definition verifyMessage_payload :: "json \<Rightarrow> string" where
  "verifyMessage_payload envelope =
    JSON_stringify (JObj (drop_undefined
      [(''id'', get_prop envelope ''id''),
       (''timestamp'', get_prop envelope ''timestamp''),
       (''from'', get_prop envelope ''from''),
       (''to'', get_prop envelope ''to''),
       (''conversation'', get_prop envelope ''conversation''),
       (''type'', get_prop envelope ''type''),
       (''intent'', get_prop envelope ''intent''),
       (''payload'', get_prop envelope ''payload'')]))"

definition verifyMessage ::
  "(string \<Rightarrow> json \<Rightarrow> json \<Rightarrow> bool option) \<Rightarrow> json \<Rightarrow> json \<Rightarrow> json \<Rightarrow> bool" where
  "verifyMessage crypto_verify envelope signature publicKeyPem =
     (case crypto_verify (verifyMessage_payload envelope) publicKeyPem signature of
        None \<Rightarrow> False
      | Some valid \<Rightarrow> valid)"

text \<open>\<^verbatim>\<open>AI2AI._sign\<close> of src/client.js builds the same literal and signs it with the node's key.\<close>

definition AI2AI_sign :: "(string \<Rightarrow> 'sk \<Rightarrow> string) \<Rightarrow> 'sk \<Rightarrow> json \<Rightarrow> string" where
  "AI2AI_sign crypto_sign privateKey envelope =
     crypto_sign
       (JSON_stringify (JObj (drop_undefined
          [(''id'', get_prop envelope ''id''),
           (''timestamp'', get_prop envelope ''timestamp''),
           (''from'', get_prop envelope ''from''),
           (''to'', get_prop envelope ''to''),
           (''conversation'', get_prop envelope ''conversation''),
           (''type'', get_prop envelope ''type''),
           (''intent'', get_prop envelope ''intent''),
           (''payload'', get_prop envelope ''payload'')])))
       privateKey"

text \<open>
  The two readings of the signed struct. \<open>select_fields ks e\<close> is the object holding the
  fields \<open>ks\<close> of \<open>e\<close> that are defined, in the order of \<open>ks\<close>. The source order of the
  literal is \<open>signed_fields\<close>; the specification's wording (keys in lexicographic order)
  is \<open>lexicographic_fields\<close>, the same names sorted as strings.
\<close>

definition select_fields :: "string list \<Rightarrow> json \<Rightarrow> json" where
  "select_fields ks envelope = JObj (drop_undefined (map (\<lambda>k. (k, get_prop envelope k)) ks))"

definition signed_fields :: "string list" where
  "signed_fields =
     [''id'', ''timestamp'', ''from'', ''to'', ''conversation'', ''type'', ''intent'', ''payload'']"

definition lexicographic_fields :: "string list" where
  "lexicographic_fields =
     [''conversation'', ''from'', ''id'', ''intent'', ''payload'', ''timestamp'', ''to'', ''type'']"

text \<open>Modelled after the specification's wording: the canonical bytes with sorted keys.\<close>

definition spec_canonical_bytes :: "json \<Rightarrow> string" where
  "spec_canonical_bytes envelope = JSON_stringify (select_fields lexicographic_fields envelope)"

text \<open>All characters of the strings and keys inside a value.\<close>

fun json_text :: "json \<Rightarrow> string"
  and json_text_elems :: "json list \<Rightarrow> string"
  and json_text_props :: "(string \<times> json) list \<Rightarrow> string" where
  "json_text JNull = []"
| "json_text (JBool b) = []"
| "json_text (JNum n) = []"
| "json_text (JStr s) = s"
| "json_text (JArr xs) = json_text_elems xs"
| "json_text (JObj kvs) = json_text_props kvs"
| "json_text_elems [] = []"
| "json_text_elems (x # xs) = json_text x @ json_text_elems xs"
| "json_text_props [] = []"
| "json_text_props ((k, v) # ps) = k @ json_text v @ json_text_props ps"

definition example_envelope :: json where
  "example_envelope =
    JObj [(''ai2ai'', JStr ''1.0''),
          (''id'', JStr ''e1''),
          (''nonce'', JStr ''n1''),
          (''timestamp'', JStr ''2026-03-10T10:00:00.000Z''),
          (''from'', JObj [(''agent'', JStr ''alice''), (''human'', JStr ''Alice'')]),
          (''to'', JObj [(''agent'', JStr ''bob'')]),
          (''conversation'', JStr ''c1''),
          (''type'', JStr ''request''),
          (''intent'', JStr ''schedule.meeting''),
          (''payload'', JObj [(''subject'', JStr ''Lunch''), (''duration_minutes'', JNum (SafeInteger 60))]),
          (''requires_human_approval'', JBool True)]"

section \<open>Reading a serialisation back: auxiliary notions\<close>

text \<open>
  Notions used to show that \<^verbatim>\<open>JSON.stringify\<close> determines the value it was given:
  the number read from a digit string, the characters a number is written with, the
  texts that may follow a number, the characters a string literal escapes, and the kind
  of a value.
\<close>

definition read_nat :: "string \<Rightarrow> nat" where
  "read_nat s = foldl (\<lambda>a c. 10 * a + ((of_char c :: nat) - 48)) 0 s"

definition numchar :: "char \<Rightarrow> bool" where
  "numchar c = ((48 \<le> (of_char c :: nat) \<and> (of_char c :: nat) \<le> 57) \<or> c = CHR ''-'')"

definition follow :: "string \<Rightarrow> bool" where
  "follow x = (case x of [] \<Rightarrow> True | c # cs \<Rightarrow> \<not> numchar c)"

definition escaped :: "char \<Rightarrow> bool" where
  "escaped c = ((of_char c :: nat) = 0x22 \<or> (of_char c :: nat) = 0x5C \<or> (of_char c :: nat) < 0x20)"

fun json_kind :: "json \<Rightarrow> nat" where
  "json_kind JNull = 0"
| "json_kind (JBool b) = 1"
| "json_kind (JNum n) = 2"
| "json_kind (JStr s) = 3"
| "json_kind (JArr xs) = 4"
| "json_kind (JObj ps) = 5"

text \<open>
  What \<^verbatim>\<open>JSON.stringify\<close> keeps of a value, as a value: an infinity or \<^verbatim>\<open>NaN\<close> becomes
  \<^verbatim>\<open>null\<close> and the negative zero becomes \<^verbatim>\<open>0\<close>, at every depth; everything else is kept.
\<close>

definition serialised_number :: "js_number \<Rightarrow> json" where
  "serialised_number x =
    (case x of
       SafeInteger w \<Rightarrow> JNum (SafeInteger w)
     | NegativeZero \<Rightarrow> JNum (SafeInteger 0)
     | PositiveInfinity \<Rightarrow> JNull
     | NegativeInfinity \<Rightarrow> JNull
     | NotANumber \<Rightarrow> JNull)"

fun serialised :: "json \<Rightarrow> json"
  and serialised_elems :: "json list \<Rightarrow> json list"
  and serialised_props :: "(string \<times> json) list \<Rightarrow> (string \<times> json) list" where
  "serialised JNull = JNull"
| "serialised (JBool b) = JBool b"
| "serialised (JNum x) = serialised_number x"
| "serialised (JStr s) = JStr s"
| "serialised (JArr xs) = JArr (serialised_elems xs)"
| "serialised (JObj kvs) = JObj (serialised_props kvs)"
| "serialised_elems [] = []"
| "serialised_elems (x # xs) = serialised x # serialised_elems xs"
| "serialised_props [] = []"
| "serialised_props ((k, v) # ps) = (k, serialised v) # serialised_props ps"

text \<open>
  The lists that stand for an object of the code. The own keys of an object are distinct
  and are enumerated with the array indices first, in ascending numeric order (an array
  index is the canonical decimal form of an integer below \<^verbatim>\<open>2^32 - 1\<close>), followed by the
  other keys in the order of their creation. \<open>js_value\<close> holds of a value whose objects,
  at every depth, list their properties in such an order.
\<close>

definition digit_only :: "char \<Rightarrow> bool" where
  "digit_only c = (48 \<le> (of_char c :: nat) \<and> (of_char c :: nat) \<le> 57)"

definition array_index :: "string \<Rightarrow> bool" where
  "array_index k =
     (k \<noteq> [] \<and> list_all digit_only k \<and> (k = ''0'' \<or> hd k \<noteq> CHR ''0'')
      \<and> read_nat k < 4294967295)"

definition own_keys_order :: "string list \<Rightarrow> bool" where
  "own_keys_order ks =
     (distinct ks
      \<and> sorted_wrt (<) (map read_nat (takeWhile array_index ks))
      \<and> list_all (\<lambda>k. \<not> array_index k) (dropWhile array_index ks))"

fun js_value :: "json \<Rightarrow> bool"
  and js_values :: "json list \<Rightarrow> bool"
  and js_members :: "(string \<times> json) list \<Rightarrow> bool" where
  "js_value (JArr xs) = js_values xs"
| "js_value (JObj kvs) = (own_keys_order (map fst kvs) \<and> js_members kvs)"
| "js_value v = True"
| "js_values [] = True"
| "js_values (x # xs) = (js_value x \<and> js_values xs)"
| "js_members [] = True"
| "js_members ((k, v) # ps) = (js_value v \<and> js_members ps)"

text \<open>
  Two envelopes that differ in the payload only: \<^verbatim>\<open>"limit": null\<close> in the first, and in the
  second \<^verbatim>\<open>Infinity\<close>, which is what \<^verbatim>\<open>JSON.parse\<close> makes of \<^verbatim>\<open>"limit": 1e999\<close>.
\<close>

definition null_limit_envelope :: json where
  "null_limit_envelope =
     set_prop example_envelope ''payload'' (JObj [(''item'', JStr ''Widget''), (''limit'', JNull)])"

definition infinite_limit_envelope :: json where
  "infinite_limit_envelope =
     set_prop example_envelope ''payload''
       (JObj [(''item'', JStr ''Widget''), (''limit'', JNum PositiveInfinity)])"

text \<open>The example envelope with its intent replaced after signing.\<close>

definition retargeted_envelope :: json where
  "retargeted_envelope = set_prop example_envelope ''intent'' (JStr ''commerce.accept'')"

section \<open>Payload encryption (ai2ai-encryption.js)\<close>

text \<open>
  The primitives of Node's \<^verbatim>\<open>crypto\<close> and \<^verbatim>\<open>Buffer\<close> that the module calls, as a record
  of functions over byte strings. \<open>'xs\<close> and \<open>'xp\<close> are X25519 private and public key
  objects. A result \<open>None\<close> stands for a thrown exception.
  \<^item> \<open>x25519_publicKey\<close>: the public half of a generated pair;
  \<^item> \<open>export_spki\<close>: \<^verbatim>\<open>publicKey.export({type:'spki', format:'der'})\<close>;
  \<^item> \<open>createPublicKey_spki\<close>: \<^verbatim>\<open>crypto.createPublicKey({key, format:'der', type:'spki'})\<close>,
    \<open>None\<close> also when the later key agreement rejects the imported key;
  \<^item> \<open>diffieHellman\<close>: \<^verbatim>\<open>crypto.diffieHellman({privateKey, publicKey})\<close>;
  \<^item> \<open>hkdfSync_sha256 ikm salt info len\<close>: \<^verbatim>\<open>crypto.hkdfSync('sha256', ikm, salt, info, len)\<close>;
  \<^item> \<open>aes_256_gcm_encrypt key iv plaintext\<close>: the ciphertext and the authentication tag;
  \<^item> \<open>aes_256_gcm_decrypt key iv ciphertext tag\<close>: the plaintext, \<open>None\<close> when
    \<^verbatim>\<open>createDecipheriv\<close>, \<^verbatim>\<open>setAuthTag\<close> or \<^verbatim>\<open>final\<close> throws;
  \<^item> \<open>base64_encode\<close>: \<^verbatim>\<open>buf.toString('base64')\<close>;
  \<^item> \<open>Buffer_from_base64\<close>: \<^verbatim>\<open>Buffer.from(v, 'base64')\<close> on a defined value;
  \<^item> \<open>JSON_parse\<close>: \<^verbatim>\<open>JSON.parse\<close>.
  UTF-8 encoding and decoding of the serialised payload are the identity on byte strings.
\<close>

record ('xs, 'xp) node_crypto =
  x25519_publicKey :: "'xs \<Rightarrow> 'xp"
  export_spki :: "'xp \<Rightarrow> string"
  createPublicKey_spki :: "string \<Rightarrow> 'xp option"
  diffieHellman :: "'xs \<Rightarrow> 'xp \<Rightarrow> string"
  hkdfSync_sha256 :: "string \<Rightarrow> string \<Rightarrow> string \<Rightarrow> nat \<Rightarrow> string"
  aes_256_gcm_encrypt :: "string \<Rightarrow> string \<Rightarrow> string \<Rightarrow> string \<times> string"
  aes_256_gcm_decrypt :: "string \<Rightarrow> string \<Rightarrow> string \<Rightarrow> string \<Rightarrow> string option"
  base64_encode :: "string \<Rightarrow> string"
  Buffer_from_base64 :: "json \<Rightarrow> string option"
  JSON_parse :: "string \<Rightarrow> json option"

text \<open>\<^verbatim>\<open>Buffer.from(v, 'base64')\<close> where \<open>v\<close> may be \<^verbatim>\<open>undefined\<close>, which throws.\<close>

definition buffer_from :: "('xs, 'xp) node_crypto \<Rightarrow> json option \<Rightarrow> string option" where
  "buffer_from c v = (case v of None \<Rightarrow> None | Some j \<Rightarrow> Buffer_from_base64 c j)"

text \<open>The AES key both sides derive: HKDF-SHA256, empty salt, the fixed info label, 32 bytes.\<close>

definition derive_aes_key :: "('xs, 'xp) node_crypto \<Rightarrow> 'xs \<Rightarrow> 'xp \<Rightarrow> string" where
  "derive_aes_key c privateKey publicKey =
     hkdfSync_sha256 c (diffieHellman c privateKey publicKey) [] ''ai2ai-payload-encryption'' 32"

text \<open>
  \<^verbatim>\<open>encryptPayloadX25519\<close>. The generated ephemeral private key and the 12 random bytes are
  explicit inputs. Every exception inside is caught and turned into \<^verbatim>\<open>null\<close> (\<open>None\<close>).
\<close>

definition encryptPayloadX25519 ::
  "('xs, 'xp) node_crypto \<Rightarrow> 'xs \<Rightarrow> string \<Rightarrow> json option \<Rightarrow> json option \<Rightarrow> json option" where
  "encryptPayloadX25519 c ephemeral nonce payloadObj recipientX25519PubDer =
    (case payloadObj of
       None \<Rightarrow> None
     | Some p \<Rightarrow>
        (let plaintext = JSON_stringify p in
         case buffer_from c recipientX25519PubDer of
           None \<Rightarrow> None
         | Some der \<Rightarrow>
            (case createPublicKey_spki c der of
               None \<Rightarrow> None
             | Some recipientPub \<Rightarrow>
                (let aesKey = derive_aes_key c ephemeral recipientPub;
                     (encrypted, tag) = aes_256_gcm_encrypt c aesKey nonce plaintext;
                     ephPubDer = export_spki c (x25519_publicKey c ephemeral)
                 in Some (JObj
                      [(''_encrypted'', JBool True),
                       (''ephemeralPub'', JStr (base64_encode c ephPubDer)),
                       (''nonce'', JStr (base64_encode c nonce)),
                       (''ciphertext'', JStr (base64_encode c encrypted)),
                       (''tag'', JStr (base64_encode c tag))])))))"

text \<open>
  \<^verbatim>\<open>decryptPayloadX25519\<close>: \<open>None\<close> is the \<^verbatim>\<open>null\<close> of the catch block; \<open>Some v\<close> is the
  parsed plaintext. Destructuring \<^verbatim>\<open>null\<close> throws inside the try block.
\<close>

definition decryptPayloadX25519 ::
  "('xs, 'xp) node_crypto \<Rightarrow> json \<Rightarrow> 'xs \<Rightarrow> json option" where
  "decryptPayloadX25519 c encryptedPayload ourX25519PrivKey =
    (if encryptedPayload = JNull then None
     else
      (case buffer_from c (get_prop encryptedPayload ''ephemeralPub'') of
         None \<Rightarrow> None
       | Some ephDer \<Rightarrow>
          (case createPublicKey_spki c ephDer of
             None \<Rightarrow> None
           | Some ephPub \<Rightarrow>
              (let aesKey = derive_aes_key c ourX25519PrivKey ephPub in
               case buffer_from c (get_prop encryptedPayload ''nonce'') of
                 None \<Rightarrow> None
               | Some iv \<Rightarrow>
                  (case buffer_from c (get_prop encryptedPayload ''tag'') of
                     None \<Rightarrow> None
                   | Some tag \<Rightarrow>
                      (case buffer_from c (get_prop encryptedPayload ''ciphertext'') of
                         None \<Rightarrow> None
                       | Some ciphertext \<Rightarrow>
                          (case aes_256_gcm_decrypt c aesKey iv ciphertext tag of
                             None \<Rightarrow> None
                           | Some decrypted \<Rightarrow> JSON_parse c decrypted)))))))"

text \<open>\<^verbatim>\<open>isEncrypted\<close>: \<^verbatim>\<open>payload != null && payload._encrypted === true\<close>.\<close>

definition isEncrypted :: "json option \<Rightarrow> bool" where
  "isEncrypted payload = (opt_prop payload ''_encrypted'' = Some (JBool True))"

subsection \<open>A small instance of the primitives, for concrete runs\<close>

text \<open>
  Keys are numbers, the key agreement multiplies, the cipher reverses the plaintext and
  tags it with key and nonce, base64 is the identity, and the parser knows one document.
\<close>

definition toy_crypto :: "json \<Rightarrow> (nat, nat) node_crypto" where
  "toy_crypto doc =
    \<lparr> x25519_publicKey = (\<lambda>a. a),
      export_spki = (\<lambda>p. replicate p (CHR ''k'')),
      createPublicKey_spki = (\<lambda>der. Some (length der)),
      diffieHellman = (\<lambda>a p. replicate (a * p) (CHR ''s'')),
      hkdfSync_sha256 = (\<lambda>ikm salt info len. ikm @ salt @ info),
      aes_256_gcm_encrypt = (\<lambda>k iv pt. (rev pt, k @ iv)),
      aes_256_gcm_decrypt = (\<lambda>k iv ct tag. if tag = k @ iv then Some (rev ct) else None),
      base64_encode = (\<lambda>b. b),
      Buffer_from_base64 = (\<lambda>v. case v of JStr s \<Rightarrow> Some s | _ \<Rightarrow> None),
      JSON_parse = (\<lambda>s. if s = JSON_stringify doc then Some doc else None) \<rparr>"

definition toy_sign :: "string \<Rightarrow> string \<Rightarrow> string" where
  "toy_sign bytes key = key @ '':'' @ bytes"

definition toy_verify :: "string \<Rightarrow> json \<Rightarrow> json \<Rightarrow> bool option" where
  "toy_verify bytes publicKey signature =
    (case (publicKey, signature) of
       (JStr p, JStr s) \<Rightarrow> Some (s = p @ '':'' @ bytes)
     | _ \<Rightarrow> None)"

definition example_payload :: json where
  "example_payload = JObj [(''item'', JStr ''Widget''), (''quantity'', JNum (SafeInteger 2))]"

section \<open>Contacts (ai2ai-trust.js)\<close>

text \<open>
  \<^verbatim>\<open>contacts.json\<close> is one object from agent id to contact record. An agent id used as a
  property name is turned into a string first. (A name inherited from
  \<^verbatim>\<open>Object.prototype\<close> yields a value without any of the fields read below, which every
  caller treats like a missing contact.)
\<close>

type_synonym contacts = "string \<Rightarrow> json option"

fun js_string :: "json \<Rightarrow> string"
  and js_join :: "json list \<Rightarrow> string" where
  "js_string JNull = ''null''"
| "js_string (JBool b) = (if b then ''true'' else ''false'')"
| "js_string (JNum n) = Number_toString n"
| "js_string (JStr s) = s"
| "js_string (JArr xs) = js_join xs"
| "js_string (JObj kvs) = ''[object Object]''"
| "js_join [] = []"
| "js_join [x] = (if x = JNull then [] else js_string x)"
| "js_join (x # y # ys) = (if x = JNull then [] else js_string x) @ '','' @ js_join (y # ys)"

definition property_key :: "json option \<Rightarrow> string" where
  "property_key v = (case v of None \<Rightarrow> ''undefined'' | Some j \<Rightarrow> js_string j)"

definition getContact :: "contacts \<Rightarrow> json option \<Rightarrow> json option" where
  "getContact cs agentId = cs (property_key agentId)"

definition isBlocked :: "contacts \<Rightarrow> json option \<Rightarrow> bool" where
  "isBlocked cs agentId = (opt_prop (getContact cs agentId) ''blocked'' = Some (JBool True))"

section \<open>Egress (ai2ai-client.js)\<close>

record client_config =
  agentName :: string
  humanName :: string
  enableEncryption :: bool
  enableQueue :: bool

record envelope_args =
  arg_to :: "json option"
  arg_type :: "json option"
  arg_intent :: "json option"
  arg_payload :: "json option"
  arg_conversationId :: "json option"
  arg_requiresHumanApproval :: "json option"
  arg_participants :: "json option"

text \<open>\<^verbatim>\<open>a || b\<close> on values.\<close>

definition js_or :: "json option \<Rightarrow> json \<Rightarrow> json" where
  "js_or a b = (if truthy a then the a else b)"

text \<open>
  \<^verbatim>\<open>createEnvelope\<close>. The two fresh UUIDs and the current time (as an ISO string) are
  inputs. \<open>createEnvelope_unsigned\<close> is the object \<^verbatim>\<open>envelope\<close> as it stands just before
  the line \<^verbatim>\<open>envelope.signature = signMessage(envelope, keys.privateKey)\<close>: the envelope
  is signed at creation, over the payload it was given.
\<close>

definition createEnvelope_unsigned ::
  "client_config \<Rightarrow> string \<Rightarrow> string \<Rightarrow> string \<Rightarrow> envelope_args \<Rightarrow> json" where
  "createEnvelope_unsigned config uuid1 uuid2 nowIso args =
    (let envelope = JObj (drop_undefined
           [(''ai2ai'', Some (JStr ''0.1'')),
            (''id'', Some (JStr uuid1)),
            (''timestamp'', Some (JStr nowIso)),
            (''from'', Some (JObj [(''agent'', JStr (agentName config)),
                                   (''node'', JStr (agentName config @ ''-node'')),
                                   (''human'', JStr (humanName config))])),
            (''to'', arg_to args),
            (''conversation'', Some (js_or (arg_conversationId args) (JStr uuid2))),
            (''type'', arg_type args),
            (''intent'', Some (js_or (arg_intent args) JNull)),
            (''payload'', Some (js_or (arg_payload args) (JObj []))),
            (''requires_human_approval'',
               Some (JBool (arg_requiresHumanApproval args \<noteq> Some (JBool False))))])
     in if truthy (arg_participants args)
        then set_prop envelope ''participants'' (the (arg_participants args))
        else envelope)"

definition createEnvelope ::
  "(string \<Rightarrow> 'sk \<Rightarrow> string) \<Rightarrow> client_config \<Rightarrow> 'sk \<Rightarrow> string \<Rightarrow> string \<Rightarrow> string
    \<Rightarrow> envelope_args \<Rightarrow> json" where
  "createEnvelope crypto_sign config privateKey uuid1 uuid2 nowIso args =
    (let envelope = createEnvelope_unsigned config uuid1 uuid2 nowIso args
     in set_prop envelope ''signature'' (JStr (signMessage crypto_sign envelope privateKey)))"

text \<open>
  \<^verbatim>\<open>Array.isArray(envelope.to) ? envelope.to[0]?.agent : envelope.to?.agent\<close>
\<close>

definition recipientAgent_of :: "json \<Rightarrow> json option" where
  "recipientAgent_of envelope =
    (case get_prop envelope ''to'' of
       Some (JArr xs) \<Rightarrow> (case xs of [] \<Rightarrow> None | x # _ \<Rightarrow> get_prop x ''agent'')
     | t \<Rightarrow> opt_prop t ''agent'')"

text \<open>
  \<^verbatim>\<open>maybeEncryptEnvelope\<close> replaces the payload by its encrypted form and adds the
  \<^verbatim>\<open>_payloadEncrypted\<close> flag. No other field is touched: the signature stays the one
  \<^verbatim>\<open>createEnvelope\<close> made.
\<close>

definition maybeEncryptEnvelope ::
  "('xs, 'xp) node_crypto \<Rightarrow> client_config \<Rightarrow> contacts \<Rightarrow> 'xs \<Rightarrow> string \<Rightarrow> json \<Rightarrow> json" where
  "maybeEncryptEnvelope c config cs ephemeral nonce envelope =
    (if \<not> enableEncryption config then envelope
     else
      (let recipientAgent = recipientAgent_of envelope in
       if \<not> truthy recipientAgent then envelope
       else
        (let contact = getContact cs recipientAgent in
         if \<not> truthy (opt_prop contact ''x25519PublicKey'') then envelope
         else
          (case encryptPayloadX25519 c ephemeral nonce (get_prop envelope ''payload'')
                  (opt_prop contact ''x25519PublicKey'') of
             None \<Rightarrow> envelope
           | Some encrypted \<Rightarrow>
               set_prop (set_prop envelope ''payload'' encrypted)
                 ''_payloadEncrypted'' (JBool True)))))"

text \<open>
  \<^verbatim>\<open>sendMessage\<close> up to the call of \<^verbatim>\<open>rawSend\<close>: either the error it throws for a blocked
  recipient, or the envelope that goes on the wire.
\<close>

definition sendMessage_wire ::
  "('xs, 'xp) node_crypto \<Rightarrow> client_config \<Rightarrow> contacts \<Rightarrow> 'xs \<Rightarrow> string \<Rightarrow> json \<Rightarrow> string + json" where
  "sendMessage_wire c config cs ephemeral nonce envelope =
    (let recipientAgent = recipientAgent_of envelope in
     if truthy recipientAgent \<and> isBlocked cs recipientAgent
     then Inl (''Agent '' @ property_key recipientAgent @ '' is blocked'')
     else Inr (maybeEncryptEnvelope c config cs ephemeral nonce envelope))"

subsection \<open>A concrete send\<close>

definition example_config :: client_config where
  "example_config =
    \<lparr> agentName = ''alice-assistant'', humanName = ''Alice'',
      enableEncryption = True, enableQueue = True \<rparr>"

definition example_args :: envelope_args where
  "example_args =
    \<lparr> arg_to = Some (JObj [(''agent'', JStr ''bob-assistant'')]),
      arg_type = Some (JStr ''request''),
      arg_intent = Some (JStr ''message.relay''),
      arg_payload = Some (JObj [(''message'', JStr ''hi'')]),
      arg_conversationId = None,
      arg_requiresHumanApproval = None,
      arg_participants = None \<rparr>"

text \<open>Bob's contact record holds his X25519 public key (private key 3 of the small instance).\<close>

definition example_contacts :: contacts where
  "example_contacts =
    Map.empty(''bob-assistant'' \<mapsto>
      JObj [(''endpoint'', JStr ''http://localhost:18801/ai2ai''),
            (''x25519PublicKey'', JStr ''kkk'')])"

definition example_plain_envelope :: json where
  "example_plain_envelope =
    createEnvelope toy_sign example_config ''alice-key'' ''id-1'' ''conv-1''
      ''2026-03-10T10:00:00.000Z'' example_args"

definition example_wire_envelope :: json where
  "example_wire_envelope =
    maybeEncryptEnvelope (toy_crypto JNull) example_config example_contacts 2 ''nonce''
      example_plain_envelope"

section \<open>Security filters (src/security.js) and deduplication (src/reliability.js)\<close>



type_synonym 'v js_map = "(json option \<times> 'v) list"





subsection \<open>RateLimiter\<close>



subsection \<open>Message expiry\<close>


subsection \<open>Blocklist\<close>


subsection \<open>NonceTracker\<close>




subsection \<open>Deduplicator\<close>




section \<open>The node's ingress handler (src/client.js, AI2AI._handleRequest)\<close>









subsection \<open>The filters one by one\<close>








subsection \<open>A concrete node\<close>









section \<open>Conversation store (skill/ai2ai-conversations.js)\<close>

text \<open>
  One metadata document per conversation id. Times are milliseconds since the epoch; the
  source stores them as ISO strings of the same instants.
\<close>

record conversation =
  conv_id :: string
  state :: string
  conv_intent :: "json option"
  initiator :: "json option"
  recipient :: "json option"
  participants :: json
  createdAt :: int
  updatedAt :: int
  conv_expiresAt :: int
  messageCount :: int

type_synonym conv_store = "string \<Rightarrow> conversation option"

definition STATES_NEGOTIATING :: string where "STATES_NEGOTIATING = ''negotiating''"
definition STATES_CONFIRMED :: string where "STATES_CONFIRMED = ''confirmed''"
definition STATES_REJECTED :: string where "STATES_REJECTED = ''rejected''"
definition STATES_EXPIRED :: string where "STATES_EXPIRED = ''expired''"

text \<open>The table \<^verbatim>\<open>TRANSITIONS\<close>, in the order the source lists it.\<close>

definition TRANSITIONS :: "(string \<times> string list) list" where
  "TRANSITIONS =
    [(''proposed'', [''negotiating'', ''confirmed'', ''rejected'', ''expired'']),
     (''negotiating'', [''confirmed'', ''rejected'', ''expired'']),
     (''confirmed'', []),
     (''rejected'', []),
     (''expired'', [])]"


definition getConversation :: "conv_store \<Rightarrow> string \<Rightarrow> conversation option" where
  "getConversation store conversationId = store conversationId"


text \<open>
  \<^verbatim>\<open>transitionState\<close> returns \<^verbatim>\<open>null\<close> (\<open>None\<close>) for an unknown conversation and for a
  move the table does not list, and writes nothing in either case; otherwise it rewrites
  the state and \<^verbatim>\<open>updatedAt\<close> and returns the new metadata.
\<close>

definition transitionState ::
  "int \<Rightarrow> conv_store \<Rightarrow> string \<Rightarrow> string \<Rightarrow> conversation option \<times> conv_store" where
  "transitionState now store conversationId newState =
    (case getConversation store conversationId of
       None \<Rightarrow> (None, store)
     | Some meta \<Rightarrow>
        (case map_of TRANSITIONS (state meta) of
           None \<Rightarrow> (None, store)
         | Some allowed \<Rightarrow>
            if newState \<notin> set allowed then (None, store)
            else
              (let meta' = meta\<lparr> state := newState, updatedAt := now \<rparr>
               in (Some meta', store(conversationId \<mapsto> meta')))))"

text \<open>A sequence of transition requests \<open>(now, conversationId, newState)\<close>, applied in order.\<close>

fun run_transitions :: "conv_store \<Rightarrow> (int \<times> string \<times> string) list \<Rightarrow> conv_store" where
  "run_transitions store [] = store"
| "run_transitions store ((now, cid, newState) # reqs) =
     run_transitions (snd (transitionState now store cid newState)) reqs"

definition terminal_states :: "string list" where
  "terminal_states = [STATES_CONFIRMED, STATES_REJECTED, STATES_EXPIRED]"

definition admitted_moves :: "(string \<times> string) list" where
  "admitted_moves =
    [(''proposed'', ''negotiating''), (''proposed'', ''confirmed''),
     (''proposed'', ''rejected''), (''proposed'', ''expired''),
     (''negotiating'', ''confirmed''), (''negotiating'', ''rejected''),
     (''negotiating'', ''expired'')]"

definition example_conversation :: conversation where
  "example_conversation =
    \<lparr> conv_id = ''c1'', state = ''confirmed'', conv_intent = Some (JStr ''schedule.meeting''),
      initiator = Some (JObj [(''agent'', JStr ''alice'')]),
      recipient = Some (JObj [(''agent'', JStr ''bob'')]),
      participants = JArr [JObj [(''agent'', JStr ''alice'')], JObj [(''agent'', JStr ''bob'')]],
      createdAt = 1000, updatedAt = 2000, conv_expiresAt = 604801000, messageCount = 2 \<rparr>"

section \<open>Trust (ai2ai-trust.js)\<close>

definition ALWAYS_APPROVE :: "string list" where
  "ALWAYS_APPROVE =
     [''commerce.request'', ''commerce.offer'', ''commerce.accept'', ''commerce.reject'',
      ''task.delegate'']"

text \<open>\<^verbatim>\<open>ALWAYS_APPROVE.includes(intent)\<close>: strict equality with one of the strings.\<close>

definition always_approve_includes :: "json option \<Rightarrow> bool" where
  "always_approve_includes intent =
     (case intent of Some (JStr s) \<Rightarrow> s \<in> set ALWAYS_APPROVE | _ \<Rightarrow> False)"

definition requiresApproval :: "contacts \<Rightarrow> json option \<Rightarrow> json option \<Rightarrow> json option \<Rightarrow> bool" where
  "requiresApproval cs agentId intent ty =
    (if always_approve_includes intent then True
     else
      (let contact = getContact cs agentId in
       if \<not> truthy contact then True
       else if opt_prop contact ''trustLevel'' = Some (JStr ''trusted'')
       then always_approve_includes intent
       else if opt_prop contact ''trustLevel'' = Some (JStr ''known'')
       then ty = Some (JStr ''request'')
       else True))"



section \<open>Intent handlers (ai2ai-handlers.js)\<close>

text \<open>
  What the server reads from the value a handler returns: the properties
  \<^verbatim>\<open>needsApproval\<close> and \<^verbatim>\<open>alwaysRequiresApproval\<close>, each possibly \<^verbatim>\<open>undefined\<close>. \<open>None\<close> as
  the outcome of a handler stands for the \<^verbatim>\<open>TypeError\<close> it throws: on a payload it cannot
  destructure or iterate, and on a sender that is \<^verbatim>\<open>null\<close> or \<^verbatim>\<open>undefined\<close> (every handler
  reads \<^verbatim>\<open>fromAgent.human\<close>). The approval text is for display only and is left out.
\<close>

record handler_result =
  needsApproval :: "json option"
  alwaysRequiresApproval :: "json option"

definition nullish :: "json option \<Rightarrow> bool" where
  "nullish v = (v = None \<or> v = Some JNull)"

definition is_array :: "json option \<Rightarrow> bool" where
  "is_array v = (case v of Some (JArr xs) \<Rightarrow> True | _ \<Rightarrow> False)"

definition handleScheduleMeeting :: "json option \<Rightarrow> json option \<Rightarrow> handler_result option" where
  "handleScheduleMeeting payload fromAgent =
    (if nullish payload \<or> \<not> is_array (opt_prop payload ''proposed_times'') \<or> nullish fromAgent
     then None
     else Some \<lparr> needsApproval = Some (JBool True), alwaysRequiresApproval = None \<rparr>)"

definition handleMessageRelay :: "json option \<Rightarrow> json option \<Rightarrow> handler_result option" where
  "handleMessageRelay payload fromAgent =
    (if nullish payload \<or> nullish fromAgent then None
     else Some \<lparr> needsApproval = opt_prop payload ''reply_requested'',
                 alwaysRequiresApproval = None \<rparr>)"

definition handleInfoRequest :: "json option \<Rightarrow> json option \<Rightarrow> handler_result option" where
  "handleInfoRequest payload fromAgent =
    (if nullish payload \<or> nullish fromAgent then None
     else Some \<lparr> needsApproval = Some (JBool True), alwaysRequiresApproval = None \<rparr>)"

definition handleScheduleCall :: "json option \<Rightarrow> json option \<Rightarrow> handler_result option" where
  "handleScheduleCall payload fromAgent =
    (if nullish payload \<or> nullish fromAgent then None
     else handleScheduleMeeting payload fromAgent)"

definition handleInfoShare :: "json option \<Rightarrow> json option \<Rightarrow> handler_result option" where
  "handleInfoShare payload fromAgent =
    (if nullish payload \<or> nullish fromAgent then None
     else Some \<lparr> needsApproval = Some (JBool False), alwaysRequiresApproval = None \<rparr>)"

definition handleIntroduction :: "json option \<Rightarrow> json option \<Rightarrow> handler_result option" where
  "handleIntroduction payload fromAgent =
    (if nullish payload \<or> nullish fromAgent then None
     else Some \<lparr> needsApproval = Some (JBool True), alwaysRequiresApproval = None \<rparr>)"

definition handleCommerceRequest :: "json option \<Rightarrow> json option \<Rightarrow> handler_result option" where
  "handleCommerceRequest payload fromAgent =
    (if nullish payload \<or> nullish fromAgent then None
     else Some \<lparr> needsApproval = Some (JBool True),
                 alwaysRequiresApproval = Some (JBool True) \<rparr>)"

definition handleCommerceOffer :: "json option \<Rightarrow> json option \<Rightarrow> handler_result option" where
  "handleCommerceOffer payload fromAgent =
    (if nullish payload \<or> nullish fromAgent then None
     else Some \<lparr> needsApproval = Some (JBool True),
                 alwaysRequiresApproval = Some (JBool True) \<rparr>)"

definition handleCommerceAccept :: "json option \<Rightarrow> json option \<Rightarrow> handler_result option" where
  "handleCommerceAccept payload fromAgent =
    (if nullish payload \<or> nullish fromAgent then None
     else Some \<lparr> needsApproval = Some (JBool False), alwaysRequiresApproval = None \<rparr>)"

definition handleCommerceReject :: "json option \<Rightarrow> json option \<Rightarrow> handler_result option" where
  "handleCommerceReject payload fromAgent =
    (if nullish payload \<or> nullish fromAgent then None
     else Some \<lparr> needsApproval = Some (JBool False), alwaysRequiresApproval = None \<rparr>)"

text \<open>
  \<^verbatim>\<open>handleScheduleGroup\<close> iterates \<^verbatim>\<open>proposed_times || []\<close> and \<^verbatim>\<open>participants || []\<close> and
  reads a property of every participant.
\<close>

definition handleScheduleGroup :: "json option \<Rightarrow> json option \<Rightarrow> handler_result option" where
  "handleScheduleGroup payload fromAgent =
    (let times = opt_prop payload ''proposed_times'';
         parts = opt_prop payload ''participants'' in
     if nullish payload then None
     else if truthy times \<and> \<not> is_array times then None
     else if truthy parts \<and> \<not> is_array parts then None
     else if (case parts of Some (JArr xs) \<Rightarrow> JNull \<in> set xs | _ \<Rightarrow> False) then None
     else if nullish fromAgent then None
     else Some \<lparr> needsApproval = Some (JBool True), alwaysRequiresApproval = None \<rparr>)"

text \<open>The registry \<^verbatim>\<open>HANDLERS\<close>, in source order.\<close>

definition HANDLERS :: "(string \<times> (json option \<Rightarrow> json option \<Rightarrow> handler_result option)) list" where
  "HANDLERS =
    [(''schedule.meeting'', handleScheduleMeeting),
     (''schedule.call'', handleScheduleCall),
     (''schedule.group'', handleScheduleGroup),
     (''message.relay'', handleMessageRelay),
     (''info.request'', handleInfoRequest),
     (''info.share'', handleInfoShare),
     (''social.introduction'', handleIntroduction),
     (''commerce.request'', handleCommerceRequest),
     (''commerce.offer'', handleCommerceOffer),
     (''commerce.accept'', handleCommerceAccept),
     (''commerce.reject'', handleCommerceReject)]"

text \<open>
  \<^verbatim>\<open>HANDLERS\<close> is an object literal, so \<^verbatim>\<open>HANDLERS[intent]\<close> also finds the members it
  inherits from \<^verbatim>\<open>Object.prototype\<close>. All of them are truthy.
\<close>

definition Object_prototype :: "string list" where
  "Object_prototype =
    [''constructor'', ''__defineGetter__'', ''__defineSetter__'', ''hasOwnProperty'',
     ''__lookupGetter__'', ''__lookupSetter__'', ''isPrototypeOf'', ''propertyIsEnumerable'',
     ''toString'', ''valueOf'', ''__proto__'', ''toLocaleString'']"

datatype handler =
    Registered "json option \<Rightarrow> json option \<Rightarrow> handler_result option"
  | Inherited string

text \<open>\<^verbatim>\<open>getHandler\<close>: \<^verbatim>\<open>HANDLERS[intent] || null\<close>, the intent turned into a property name.\<close>

definition getHandler :: "json option \<Rightarrow> handler option" where
  "getHandler intent =
    (case map_of HANDLERS (property_key intent) of
       Some h \<Rightarrow> Some (Registered h)
     | None \<Rightarrow>
         if property_key intent \<in> set Object_prototype
         then Some (Inherited (property_key intent)) else None)"

definition supportedIntents :: "string list" where
  "supportedIntents = map fst HANDLERS"

definition is_object :: "json option \<Rightarrow> bool" where
  "is_object v = (case v of Some (JArr xs) \<Rightarrow> True | Some (JObj kvs) \<Rightarrow> True | _ \<Rightarrow> False)"

text \<open>
  The call \<^verbatim>\<open>handler(envelope.payload, envelope.from)\<close>, with \<^verbatim>\<open>this\<close> undefined. Of the
  inherited members, \<^verbatim>\<open>constructor\<close> is \<^verbatim>\<open>Object\<close> and returns the payload as an object,
  so that the two properties are read from the payload; \<^verbatim>\<open>toString\<close> returns a string
  and \<^verbatim>\<open>isPrototypeOf\<close>, given a payload that is not an object, returns \<^verbatim>\<open>false\<close>, on
  which both properties are undefined; every other one throws a \<^verbatim>\<open>TypeError\<close>
  (\<^verbatim>\<open>__proto__\<close> is not a function, the others cannot take an undefined \<^verbatim>\<open>this\<close>).
\<close>

definition call_handler :: "handler \<Rightarrow> json option \<Rightarrow> json option \<Rightarrow> handler_result option" where
  "call_handler handler payload fromAgent =
    (case handler of
       Registered h \<Rightarrow> h payload fromAgent
     | Inherited name \<Rightarrow>
         if name = ''constructor''
         then Some \<lparr> needsApproval = opt_prop payload ''needsApproval'',
                      alwaysRequiresApproval = opt_prop payload ''alwaysRequiresApproval'' \<rparr>
         else if name = ''toString'' \<or> (name = ''isPrototypeOf'' \<and> \<not> is_object payload)
         then Some \<lparr> needsApproval = None, alwaysRequiresApproval = None \<rparr>
         else None)"

section \<open>The server (ai2ai-server.js)\<close>

text \<open>
  What the server takes from Node and the operating system: \<^verbatim>\<open>path.join\<close>; whether a
  write to a path (\<^verbatim>\<open>fs.writeFileSync\<close>, \<^verbatim>\<open>fs.appendFileSync\<close>) returns, instead of throwing
  as it does for a name that is not a usable file name in an existing directory;
  \<^verbatim>\<open>Date.prototype.toISOString\<close> as a function of the milliseconds; and \<^verbatim>\<open>__dirname\<close>.
\<close>

record node_env =
  path_join :: "string \<Rightarrow> string \<Rightarrow> string"
  write_ok :: "string \<Rightarrow> bool"
  toISOString :: "int \<Rightarrow> string"
  dirname :: string

definition CONVERSATIONS_DIR :: "node_env \<Rightarrow> string" where
  "CONVERSATIONS_DIR env = path_join env (dirname env) ''conversations''"

definition PENDING_DIR :: "node_env \<Rightarrow> string" where
  "PENDING_DIR env = path_join env (dirname env) ''pending''"


definition metaPath :: "node_env \<Rightarrow> json option \<Rightarrow> string" where
  "metaPath env conversationId =
     path_join env (CONVERSATIONS_DIR env) (property_key conversationId @ ''.meta.json'')"

definition pendingPath :: "node_env \<Rightarrow> json option \<Rightarrow> string" where
  "pendingPath env ident = path_join env (PENDING_DIR env) (property_key ident @ ''.json'')"

record pending_approval =
  pa_envelope :: json
  pa_handler :: "json option"
  pa_isInform :: bool
  pa_createdAt :: int

text \<open>
  The state of the server: the contacts file, the rate limiter, the conversation
  metadata (by conversation id), the message history, the files of the pending directory
  (by path), the keys, and the environment.
\<close>

record ('xs) server_state =
  srv_contacts :: contacts
  srv_rateLimiter :: "int list js_map"
  srv_conversations :: conv_store
  srv_history :: "(string \<times> json) list"
  srv_pending :: "string \<Rightarrow> pending_approval option"
  srv_publicKey :: string
  srv_fingerprint :: string
  srv_x25519PublicKeyDer :: string
  srv_x25519PrivateKey :: "'xs"
  srv_timezone :: string
  srv_env :: node_env




text \<open>
  \<^verbatim>\<open>savePendingApproval\<close> writes the file \<^verbatim>\<open>pending/<id>.json\<close>; \<open>None\<close> when the write
  throws, in which case nothing is stored.
\<close>

definition savePendingApproval ::
  "json option \<Rightarrow> pending_approval \<Rightarrow> ('xs) server_state \<Rightarrow> ('xs) server_state option" where
  "savePendingApproval ident entry st =
    (let pendingPath = pendingPath (srv_env st) ident in
     if write_ok (srv_env st) pendingPath
     then Some (st\<lparr> srv_pending := (srv_pending st)(pendingPath \<mapsto> entry) \<rparr>)
     else None)"

text \<open>
  The call \<^verbatim>\<open>transitionState(envelope.conversation, newState)\<close>: when the move is made,
  the metadata file is rewritten, and \<open>None\<close> stands for that write throwing; a refused
  move writes nothing.
\<close>

definition server_transition ::
  "int \<Rightarrow> json option \<Rightarrow> string \<Rightarrow> ('xs) server_state \<Rightarrow> ('xs) server_state option" where
  "server_transition now conversation newState st =
    (case transitionState now (srv_conversations st) (property_key conversation) newState of
       (None, store) \<Rightarrow> Some st
     | (Some meta, store) \<Rightarrow>
         if write_ok (srv_env st) (metaPath (srv_env st) conversation)
         then Some (st\<lparr> srv_conversations := store \<rparr>)
         else None)"




text \<open>
  \<^verbatim>\<open>handleRequest\<close>. The reply is \<open>None\<close> when the function throws: in the intent
  handler, in the write of the pending file, or in the write of the conversation state
  after the pending file was stored. The HTTP layer then answers 500.
\<close>

definition handleRequest :: "int \<Rightarrow> ('xs) server_state \<Rightarrow> json \<Rightarrow> json option \<times> ('xs) server_state" where
  "handleRequest now st envelope =
    (case getHandler (get_prop envelope ''intent'') of
       None \<Rightarrow>
         (Some (JObj (drop_undefined
            [(''status'', Some (JStr ''error'')),
             (''reason'', Some (JStr (''Unsupported intent: '' @ property_key (get_prop envelope ''intent'')))),
             (''supported_intents'', Some (JArr (map JStr supportedIntents)))])), st)
     | Some handler \<Rightarrow>
        (case call_handler handler (get_prop envelope ''payload'') (get_prop envelope ''from'') of
           None \<Rightarrow> (None, st)
         | Some result \<Rightarrow>
            (let alwaysApprove = js_or (alwaysRequiresApproval result) (JBool False) in
             if truthy (Some alwaysApprove) \<or> truthy (needsApproval result)
                \<or> requiresApproval (srv_contacts st) (opt_prop (get_prop envelope ''from'') ''agent'')
                     (get_prop envelope ''intent'') (get_prop envelope ''type'')
             then
               (case savePendingApproval (get_prop envelope ''id'')
                       \<lparr> pa_envelope = envelope, pa_handler = get_prop envelope ''intent'',
                         pa_isInform = False, pa_createdAt = now \<rparr> st of
                  None \<Rightarrow> (None, st)
                | Some st1 \<Rightarrow>
                   (case server_transition now (get_prop envelope ''conversation'')
                           STATES_NEGOTIATING st1 of
                      None \<Rightarrow> (None, st1)
                    | Some st2 \<Rightarrow>
                       (Some (JObj (drop_undefined
                          [(''status'', Some (JStr ''pending_approval'')),
                           (''message'', Some (JStr ''Message received. Waiting for human approval.'')),
                           (''conversation'', get_prop envelope ''conversation'')])), st2)))
             else
               (Some (JObj (drop_undefined
                  [(''status'', Some (JStr ''ok'')),
                   (''message'', Some (JStr ''Message received and processed.'')),
                   (''conversation'', get_prop envelope ''conversation'')])), st))))"





text \<open>The HTTP status the server writes for a reply of \<^verbatim>\<open>processMessage\<close>.\<close>

definition server_status :: "json option \<Rightarrow> nat" where
  "server_status reply =
    (case reply of
       None \<Rightarrow> 500
     | Some r \<Rightarrow> if get_prop r ''status'' = Some (JStr ''rejected'') then 403 else 200)"


subsection \<open>A concrete server\<close>

text \<open>
  An environment whose file names may not contain a slash: paths are joined with one
  slash, and a write succeeds exactly at depth one below the two directories.
\<close>

definition example_env :: node_env where
  "example_env =
    \<lparr> path_join = (\<lambda>dir name. dir @ ''/'' @ name),
      write_ok = (\<lambda>p. length (filter (\<lambda>c. c = CHR ''/'') p) = 4),
      toISOString = (\<lambda>ms. ''2026-03-10T10:00:01.000Z''),
      dirname = ''/srv/skill'' \<rparr>"

definition example_server :: "nat server_state" where
  "example_server =
    \<lparr> srv_contacts =
        Map.empty(''alice'' \<mapsto>
          JObj [(''humanName'', JStr ''Alice''), (''publicKey'', JStr ''alice-key''),
                (''trustLevel'', JStr ''trusted'')]),
      srv_rateLimiter = [],
      srv_conversations = Map.empty,
      srv_history = [],
      srv_pending = Map.empty,
      srv_publicKey = ''bob-key'',
      srv_fingerprint = ''aaaa:bbbb'',
      srv_x25519PublicKeyDer = ''kkk'',
      srv_x25519PrivateKey = 3,
      srv_timezone = ''UTC'',
      srv_env = example_env \<rparr>"



definition quote_envelope :: json where
  "quote_envelope =
    JObj [(''ai2ai'', JStr ''0.1''),
          (''id'', JStr ''q1''),
          (''timestamp'', JStr ''2026-03-10T10:00:00.000Z''),
          (''from'', JObj [(''agent'', JStr ''alice''), (''human'', JStr ''Alice'')]),
          (''to'', JObj [(''agent'', JStr ''bob'')]),
          (''conversation'', JStr ''c9''),
          (''type'', JStr ''request''),
          (''intent'', JStr ''commerce.request''),
          (''payload'', JObj [(''item'', JStr ''Widget''), (''budget'', JStr ''500 GBP'')])]"

text \<open>The registered intents whose name starts with \<^verbatim>\<open>commerce.\<close>, and the reply that
  announces a pending approval.\<close>

definition commerce_intents :: "string list" where
  "commerce_intents =
     [''commerce.request'', ''commerce.offer'', ''commerce.accept'', ''commerce.reject'']"

definition pending_reply :: "json \<Rightarrow> json" where
  "pending_reply envelope =
     JObj (drop_undefined
       [(''status'', Some (JStr ''pending_approval'')),
        (''message'', Some (JStr ''Message received. Waiting for human approval.'')),
        (''conversation'', get_prop envelope ''conversation'')])"


text \<open>The commerce request again, under an id that is not a file name.\<close>

definition slash_envelope :: json where
  "slash_envelope = set_prop quote_envelope ''id'' (JStr ''a/b'')"

section \<open>Outbound message queue (ai2ai-queue.js)\<close>

text \<open>
  An entry of the outbox. \<open>lastError\<close> is \<^verbatim>\<open>err.message\<close> of the last failed send, any
  value or \<^verbatim>\<open>undefined\<close>; it starts as \<^verbatim>\<open>null\<close>.
\<close>

record queue_entry =
  q_id :: string
  q_endpoint :: string
  q_envelope :: json
  q_createdAt :: int
  attempt :: nat
  maxRetries :: nat
  retryDelays :: "int list"
  lastAttempt :: "int option"
  lastError :: "json option"
  status :: string
  deliveredAt :: "int option"

text \<open>
  What the module acts on: the files of the outbox directory (by path), the timers of
  scheduled retries (queue id to delay), the calls of \<^verbatim>\<open>onFailure\<close> callbacks made so far
  (the callback and the entry it was given), and the environment. A callback is known by
  its name and by whether it returns or throws. \<open>dead_letters\<close> is the
  directory of the \<^verbatim>\<open>DeadLetterQueue\<close> of src/reliability.js; nothing in ai2ai-queue.js
  refers to it.
\<close>

datatype callback = Callback (cb_name: string) (cb_throws: bool)

record queue_world =
  outbox :: "string \<Rightarrow> queue_entry option"
  retryTimers :: "string \<Rightarrow> int option"
  failure_calls :: "(callback \<times> queue_entry) list"
  dead_letters :: "(string \<times> json) list"
  q_env :: node_env

definition OUTBOX_DIR :: "node_env \<Rightarrow> string" where
  "OUTBOX_DIR env = path_join env (dirname env) ''outbox''"

definition entryPath :: "node_env \<Rightarrow> string \<Rightarrow> string" where
  "entryPath env queueId = path_join env (OUTBOX_DIR env) (queueId @ ''.json'')"

text \<open>
  What \<^verbatim>\<open>sendFn\<close> does when it is called: it returns, or it throws a value \<^verbatim>\<open>err\<close> whose
  \<^verbatim>\<open>err.message\<close> is the given value (\<open>None\<close> when it has none), or it throws \<^verbatim>\<open>null\<close> or
  \<^verbatim>\<open>undefined\<close>.
\<close>

datatype send_outcome = Sent | SendError "json option" | SendNullish

definition DEFAULT_RETRY_DELAYS :: "int list" where
  "DEFAULT_RETRY_DELAYS =
     [1 * 60 * 1000, 5 * 60 * 1000, 30 * 60 * 1000, 2 * 60 * 60 * 1000, 12 * 60 * 60 * 1000]"

text \<open>
  \<^verbatim>\<open>enqueue\<close>: the queue id is the envelope id, or a fresh UUID when the envelope has none;
  \<open>opt_maxRetries\<close> and \<open>opt_retryDelays\<close> are the caller's options (an array, also
  an empty one, is truthy). \<open>None\<close> when the write of the entry file throws.
\<close>

definition enqueue ::
  "int \<Rightarrow> string \<Rightarrow> queue_world \<Rightarrow> string \<Rightarrow> json \<Rightarrow> nat option \<Rightarrow> int list option
     \<Rightarrow> (string \<times> queue_world) option" where
  "enqueue now uuid w endpoint envelope opt_maxRetries opt_retryDelays =
    (let queueId = (if truthy (get_prop envelope ''id'')
                    then property_key (get_prop envelope ''id'') else uuid);
         queueEntry =
           \<lparr> q_id = queueId, q_endpoint = endpoint, q_envelope = envelope, q_createdAt = now,
             attempt = 0,
             maxRetries = (case opt_maxRetries of None \<Rightarrow> length DEFAULT_RETRY_DELAYS | Some n \<Rightarrow> n),
             retryDelays = (case opt_retryDelays of
                              None \<Rightarrow> DEFAULT_RETRY_DELAYS
                            | Some ds \<Rightarrow> ds),
             lastAttempt = None, lastError = Some JNull, status = ''queued'', deliveredAt = None \<rparr>;
         entryPath = entryPath (q_env w) queueId
     in if write_ok (q_env w) entryPath
        then Some (queueId, w\<lparr> outbox := (outbox w)(entryPath \<mapsto> queueEntry) \<rparr>)
        else None)"

text \<open>\<^verbatim>\<open>loadEntry\<close>, and \<^verbatim>\<open>updateEntry\<close> with a whole entry as the update: nothing when the
  file is gone.\<close>

definition loadEntry :: "queue_world \<Rightarrow> string \<Rightarrow> queue_entry option" where
  "loadEntry w queueId = outbox w (entryPath (q_env w) queueId)"

definition updateEntry :: "queue_world \<Rightarrow> string \<Rightarrow> queue_entry \<Rightarrow> queue_world" where
  "updateEntry w queueId entry =
    (case outbox w (entryPath (q_env w) queueId) of
       None \<Rightarrow> w
     | Some old \<Rightarrow> w\<lparr> outbox := (outbox w)(entryPath (q_env w) queueId \<mapsto> entry) \<rparr>)"

definition removeEntry :: "queue_world \<Rightarrow> string \<Rightarrow> queue_world" where
  "removeEntry w queueId =
     w\<lparr> outbox := (outbox w)(entryPath (q_env w) queueId := None),
        retryTimers := (retryTimers w)(queueId := None) \<rparr>"

text \<open>
  \<^verbatim>\<open>entry.retryDelays[entry.attempt - 1] || entry.retryDelays[entry.retryDelays.length - 1]\<close>;
  an undefined delay is kept as 0. \<^verbatim>\<open>setTimeout\<close> turns a delay below 1 or above
  \<^verbatim>\<open>2^31 - 1\<close> into 1.
\<close>

definition retry_delay :: "queue_entry \<Rightarrow> int" where
  "retry_delay entry =
    (let ds = retryDelays entry; i = attempt entry - 1 in
     if i < length ds \<and> ds ! i \<noteq> 0 then ds ! i
     else if ds = [] then 0 else last ds)"

definition timer_delay :: "int \<Rightarrow> int" where
  "timer_delay d = (if d < 1 \<or> d > 2147483647 then 1 else d)"

text \<open>
  One call of \<^verbatim>\<open>attemptDelivery(queueId, sendFn, onFailure)\<close> at time \<open>now\<close>; \<open>result\<close> is what
  \<^verbatim>\<open>sendFn\<close> does if it is called, and \<open>onFailure\<close> is the callback, \<open>None\<close> when the
  caller passed none (as \<^verbatim>\<open>resumeQueue(rawSend)\<close> of the server does). The first component
  is the returned boolean, \<open>None\<close> when the call throws: a send that throws \<^verbatim>\<open>null\<close> makes
  the handler of the error throw on \<^verbatim>\<open>err.message\<close>, before anything is written, and a
  callback that throws does so after the entry was marked failed.
\<close>

definition attemptDelivery ::
  "int \<Rightarrow> send_outcome \<Rightarrow> callback option \<Rightarrow> queue_world \<Rightarrow> string \<Rightarrow> bool option \<times> queue_world" where
  "attemptDelivery now result onFailure w queueId =
    (case loadEntry w queueId of
       None \<Rightarrow> (Some False, w)
     | Some loaded \<Rightarrow>
        if status loaded = ''delivered'' \<or> status loaded = ''failed'' then (Some False, w)
        else
         (let entry = loaded\<lparr> attempt := attempt loaded + 1, lastAttempt := Some now,
                              status := ''retrying'' \<rparr> in
          case result of
            Sent \<Rightarrow>
              (let entry1 = entry\<lparr> status := ''delivered'', deliveredAt := Some now \<rparr>
               in (Some True, removeEntry (updateEntry w queueId entry1) queueId))
          | SendNullish \<Rightarrow> (None, w)
          | SendError message \<Rightarrow>
              (let entry1 = entry\<lparr> lastError := message \<rparr>;
                   w1 = updateEntry w queueId entry1 in
               if attempt entry1 \<ge> maxRetries entry1
               then
                 (let entry2 = entry1\<lparr> status := ''failed'' \<rparr>;
                      w2 = updateEntry w1 queueId entry2
                  in case onFailure of
                       None \<Rightarrow> (Some False, w2)
                     | Some callback \<Rightarrow>
                         (if cb_throws callback then None else Some False,
                          w2\<lparr> failure_calls := failure_calls w2 @ [(callback, entry2)] \<rparr>))
               else
                 (Some False,
                  w1\<lparr> retryTimers := (retryTimers w1)(queueId \<mapsto> retry_delay entry1) \<rparr>))))"

text \<open>
  The life of one queue entry from an attempt on: the attempt, and as long as it
  schedules a retry, the timer firing (which clears the timer and attempts again with
  the same \<^verbatim>\<open>sendFn\<close> and \<^verbatim>\<open>onFailure\<close>). \<open>send n\<close> is the outcome of the send in the attempt
  that brings the counter to \<open>n\<close>.
\<close>

definition attempts_left :: "queue_world \<Rightarrow> string \<Rightarrow> nat" where
  "attempts_left w queueId =
    (case loadEntry w queueId of
       None \<Rightarrow> 0
     | Some e \<Rightarrow> if status e = ''delivered'' \<or> status e = ''failed'' then 0
                 else Suc (maxRetries e - attempt e))"

definition next_attempt :: "queue_world \<Rightarrow> string \<Rightarrow> nat" where
  "next_attempt w queueId = (case loadEntry w queueId of None \<Rightarrow> 0 | Some e \<Rightarrow> attempt e + 1)"

function deliver_with_retries ::
  "(nat \<Rightarrow> send_outcome) \<Rightarrow> callback option \<Rightarrow> int \<Rightarrow> queue_world \<Rightarrow> string \<Rightarrow> queue_world" where
  "deliver_with_retries send onFailure now w queueId =
    (let w0 = w\<lparr> retryTimers := (retryTimers w)(queueId := None) \<rparr>;
         w' = snd (attemptDelivery now (send (next_attempt w0 queueId)) onFailure w0 queueId)
     in case retryTimers w' queueId of
          None \<Rightarrow> w'
        | Some delay \<Rightarrow> deliver_with_retries send onFailure (now + timer_delay delay) w' queueId)"
  by pat_completeness auto
termination
proof (relation "measure (\<lambda>(send, onFailure, now, w, queueId). attempts_left w queueId)")
  show "wf (measure (\<lambda>(send, onFailure, now, w, queueId). attempts_left w queueId))"
    by simp
next
  fix send :: "nat \<Rightarrow> send_outcome" and onFailure :: "callback option" and now :: int
    and w :: queue_world and queueId :: string and w0 w' delay
  assume w0: "w0 = w\<lparr> retryTimers := (retryTimers w)(queueId := None) \<rparr>"
    and w': "w' = snd (attemptDelivery now (send (next_attempt w0 queueId)) onFailure w0 queueId)"
    and t: "retryTimers w' queueId = Some delay"
  have "attempts_left w' queueId < attempts_left w queueId"
    using t unfolding w' w0
    by (auto simp: attemptDelivery_def attempts_left_def loadEntry_def updateEntry_def
        removeEntry_def Let_def
        split: option.splits if_splits send_outcome.splits)
  then show "((send, onFailure, now + timer_delay delay, w', queueId), (send, onFailure, now, w, queueId))
      \<in> measure (\<lambda>(send, onFailure, now, w, queueId). attempts_left w queueId)"
    by simp
qed

declare deliver_with_retries.simps [simp del]

text \<open>
  \<^verbatim>\<open>queueAndSend\<close>: enqueue and attempt at once with \<^verbatim>\<open>options.onFailure\<close>; retries follow
  from the timers.
\<close>

definition queueAndSend ::
  "(nat \<Rightarrow> send_outcome) \<Rightarrow> callback option \<Rightarrow> int \<Rightarrow> string \<Rightarrow> queue_world \<Rightarrow> string \<Rightarrow> json
     \<Rightarrow> nat option \<Rightarrow> int list option \<Rightarrow> (string \<times> queue_world) option" where
  "queueAndSend send onFailure now uuid w endpoint envelope opt_maxRetries opt_retryDelays =
    (case enqueue now uuid w endpoint envelope opt_maxRetries opt_retryDelays of
       None \<Rightarrow> None
     | Some (queueId, w1) \<Rightarrow> Some (queueId, deliver_with_retries send onFailure now w1 queueId))"

subsection \<open>A concrete queue\<close>

definition empty_world :: queue_world where
  "empty_world =
     \<lparr> outbox = Map.empty, retryTimers = Map.empty, failure_calls = [], dead_letters = [],
       q_env = example_env \<rparr>"

definition always_refused :: "nat \<Rightarrow> send_outcome" where
  "always_refused n = SendError (Some (JStr ''connect ECONNREFUSED''))"

text \<open>An entry after a failed attempt at time \<open>now\<close>: given up, or waiting for its retry.\<close>

definition failed_entry :: "int \<Rightarrow> json option \<Rightarrow> queue_entry \<Rightarrow> queue_entry" where
  "failed_entry now message e =
     e\<lparr> attempt := attempt e + 1, lastAttempt := Some now, lastError := message,
        status := ''failed'' \<rparr>"

definition retrying_entry :: "int \<Rightarrow> json option \<Rightarrow> queue_entry \<Rightarrow> queue_entry" where
  "retrying_entry now message e =
     e\<lparr> attempt := attempt e + 1, lastAttempt := Some now, status := ''retrying'',
        lastError := message \<rparr>"

definition live :: "queue_entry \<Rightarrow> bool" where
  "live e = (status e \<noteq> ''delivered'' \<and> status e \<noteq> ''failed'')"

text \<open>
  The calls of the callback that an exhausted entry leads to: one when a callback was
  passed, none otherwise.
\<close>

definition failure_notifications :: "callback option \<Rightarrow> queue_entry \<Rightarrow> (callback \<times> queue_entry) list" where
  "failure_notifications onFailure e =
     (case onFailure of None \<Rightarrow> [] | Some callback \<Rightarrow> [(callback, e)])"

definition example_exhausted_world :: queue_world where
  "example_exhausted_world =
     snd (the (queueAndSend always_refused (Some (Callback ''notifyHuman'' False)) 0 ''uuid-1'' empty_world
            ''http://localhost:1/ai2ai'' example_envelope None None))"

text \<open>
  The same entry, enqueued and then taken up the way \<^verbatim>\<open>resumeQueue(rawSend)\<close> of the server
  does it: no callback is passed.
\<close>

definition example_resumed_world :: queue_world where
  "example_resumed_world =
     deliver_with_retries always_refused None 0
       (snd (the (enqueue 0 ''uuid-1'' empty_world ''http://localhost:1/ai2ai'' example_envelope
                    None None)))
       ''e1''"

section \<open>Envelope codec: proofs\<close>

lemma sign_payload_select: "signMessage_payload e = JSON_stringify (select_fields signed_fields e)"
  by (simp add: signMessage_payload_def select_fields_def signed_fields_def)

lemma drop_undefined_cong:
  "\<forall>k\<in>set ks. f k = g k \<Longrightarrow> drop_undefined (map (\<lambda>k. (k, f k)) ks) = drop_undefined (map (\<lambda>k. (k, g k)) ks)"
proof (induction ks)
  case Nil then show ?case by simp
next
  case (Cons a ks)
  then show ?case by (cases "g a") auto
qed

lemma map_of_assign_other: "k' \<noteq> k \<Longrightarrow> map_of (assign_props kvs k v) k' = map_of kvs k'"
  by (induction kvs k v rule: assign_props.induct) auto

lemma get_prop_set_other: "k' \<noteq> k \<Longrightarrow> get_prop (set_prop e k v) k' = get_prop e k'"
  by (cases e) (auto simp: map_of_assign_other)

lemma unsigned_field_ignored:
  assumes "k \<notin> set signed_fields"
  shows "signMessage_payload (set_prop e k v) = signMessage_payload e"
proof -
  have "\<forall>k'\<in>set signed_fields. get_prop (set_prop e k v) k' = get_prop e k'"
    using assms get_prop_set_other by metis
  then have "drop_undefined (map (\<lambda>k'. (k', get_prop (set_prop e k v) k')) signed_fields)
      = drop_undefined (map (\<lambda>k'. (k', get_prop e k')) signed_fields)"
    by (rule drop_undefined_cong)
  then show ?thesis
    unfolding sign_payload_select select_fields_def by simp
qed

lemma show_nat_chars: "c \<in> set (show_nat n) \<Longrightarrow> 48 \<le> (of_char c :: nat) \<and> (of_char c :: nat) \<le> 57"
proof (induction n rule: show_nat.induct)
  case (1 n)
  show ?case
  proof (cases "n < 10")
    case True
    with "1.prems" show ?thesis by (simp add: show_nat.simps [of n] digit_char_def)
  next
    case False
    with "1.prems" "1.IH" show ?thesis
      by (auto simp: show_nat.simps [of n] digit_char_def)
  qed
qed

lemma show_int_chars: "c \<in> set (show_int i) \<Longrightarrow> 32 < (of_char c :: nat)"
  by (auto simp: show_int_def dest: show_nat_chars split: if_splits)

lemma number_json_chars: "c \<in> set (number_json x) \<Longrightarrow> 32 < (of_char c :: nat)"
  by (cases x) (auto simp: number_json_def dest: show_int_chars)

lemma hex_digit_big: "d < 16 \<Longrightarrow> 32 < (of_char (hex_digit d) :: nat)"
  by (simp add: hex_digit_def)

lemma char_eq_code: "(c = d) = ((of_char c :: nat) = of_char d)"
  by simp

lemma quote_char_chars:
  "c' \<in> set (quote_char c) \<Longrightarrow> (of_char c' :: nat) \<le> 32 \<Longrightarrow> c' = c \<and> c = CHR '' ''"
  unfolding quote_char_def Let_def
  by (auto split: if_splits simp: hex_digit_def char_eq_code [of _ "CHR '' ''"])

lemma quote_string_chars:
  "c \<in> set (quote_string s) \<Longrightarrow> (of_char c :: nat) \<le> 32 \<Longrightarrow> c = CHR '' '' \<and> c \<in> set s"
  by (auto simp: quote_string_def dest: quote_char_chars)

lemma stringify_chars:
  "c \<in> set (JSON_stringify v) \<Longrightarrow> (of_char c :: nat) \<le> 32 \<Longrightarrow> c = CHR '' '' \<and> c \<in> set (json_text v)"
  "c \<in> set (stringify_elems xs) \<Longrightarrow> (of_char c :: nat) \<le> 32 \<Longrightarrow> c = CHR '' '' \<and> c \<in> set (json_text_elems xs)"
  "c \<in> set (stringify_props ps) \<Longrightarrow> (of_char c :: nat) \<le> 32 \<Longrightarrow> c = CHR '' '' \<and> c \<in> set (json_text_props ps)"
proof (induction v and xs and ps rule: JSON_stringify_stringify_elems_stringify_props.induct)
  case (3 n)
  then show ?case using number_json_chars [of c n] by simp
next
  case (4 s)
  then show ?case by (auto dest: quote_string_chars)
qed (auto dest: quote_string_chars split: if_splits)

lemma verify_payload_eq: "verifyMessage_payload e = signMessage_payload e"
  by (simp add: verifyMessage_payload_def signMessage_payload_def)

text \<open>
  C2 (as the code has it). The bytes that \<^verbatim>\<open>signMessage\<close> signs, that
  \<^verbatim>\<open>verifyMessage\<close> checks and that \<^verbatim>\<open>AI2AI._sign\<close> signs are the JSON encoding of
  the fields id, timestamp, from, to, conversation, type, intent, payload of the envelope,
  in this order (the order of the object literal, not lexicographic order), fields that
  are undefined left out. No other field of the envelope (nonce, expiresAt,
  requires_human_approval, signature, ...) has any influence on them, and the encoding
  holds no whitespace or control character except spaces that stand inside the strings
  or keys of the signed fields.
\<close>

theorem signed_bytes_source_order:
  "signMessage_payload envelope = JSON_stringify (select_fields signed_fields envelope)
   \<and> verifyMessage_payload envelope = signMessage_payload envelope
   \<and> AI2AI_sign crypto_sign key envelope = crypto_sign (signMessage_payload envelope) key
   \<and> (\<forall>k v. k \<notin> set signed_fields \<longrightarrow>
         signMessage_payload (set_prop envelope k v) = signMessage_payload envelope)
   \<and> (\<forall>c. c \<in> set (signMessage_payload envelope) \<and> (of_char c :: nat) \<le> 32 \<longrightarrow>
         c = CHR '' '' \<and> c \<in> set (json_text (select_fields signed_fields envelope)))"
proof -
  have a: "signMessage_payload envelope = JSON_stringify (select_fields signed_fields envelope)"
    by (rule sign_payload_select)
  have b: "AI2AI_sign crypto_sign key envelope = crypto_sign (signMessage_payload envelope) key"
    by (simp add: AI2AI_sign_def signMessage_payload_def)
  have c: "\<forall>c. c \<in> set (signMessage_payload envelope) \<and> (of_char c :: nat) \<le> 32 \<longrightarrow>
         c = CHR '' '' \<and> c \<in> set (json_text (select_fields signed_fields envelope))"
  proof (intro allI impI)
    fix c assume h: "c \<in> set (signMessage_payload envelope) \<and> (of_char c :: nat) \<le> 32"
    then have "c \<in> set (JSON_stringify (select_fields signed_fields envelope))"
      unfolding a by simp
    from stringify_chars(1) [OF this] h
    show "c = CHR '' '' \<and> c \<in> set (json_text (select_fields signed_fields envelope))"
      by blast
  qed
  have d: "\<forall>k v. k \<notin> set signed_fields \<longrightarrow>
         signMessage_payload (set_prop envelope k v) = signMessage_payload envelope"
    using unsigned_field_ignored by blast
  show ?thesis
    using a b c d verify_payload_eq [of envelope] by (intro conjI)
qed

theorem signed_bytes_source_order_witness:
  "signMessage_payload (set_prop example_envelope ''nonce'' (JStr ''n2''))
     = signMessage_payload example_envelope
   \<and> signMessage_payload (set_prop example_envelope ''expiresAt'' (JStr ''2026-03-11T10:00:00.000Z''))
     = signMessage_payload example_envelope
   \<and> signMessage_payload (set_prop example_envelope ''requires_human_approval'' (JBool False))
     = signMessage_payload example_envelope
   \<and> signMessage_payload (set_prop example_envelope ''signature'' (JStr ''c2ln''))
     = signMessage_payload example_envelope
   \<and> CHR '' '' \<notin> set (signMessage_payload example_envelope)"
proof -
  note th = signed_bytes_source_order [of example_envelope "\<lambda>b k. b" "()"]
  note unsigned = th [THEN conjunct2, THEN conjunct2, THEN conjunct2, THEN conjunct1, rule_format]
  note spaces = th [THEN conjunct2, THEN conjunct2, THEN conjunct2, THEN conjunct2, rule_format,
      of "CHR '' ''"]
  have n: "''nonce'' \<notin> set signed_fields" "''expiresAt'' \<notin> set signed_fields"
    "''requires_human_approval'' \<notin> set signed_fields" "''signature'' \<notin> set signed_fields"
    by (simp_all add: signed_fields_def)
  have t: "CHR '' '' \<notin> set (json_text (select_fields signed_fields example_envelope))"
    by (simp add: select_fields_def signed_fields_def example_envelope_def)
  have s: "CHR '' '' \<notin> set (signMessage_payload example_envelope)"
    using spaces t by auto
  show ?thesis
    using unsigned [OF n(1)] unsigned [OF n(2)] unsigned [OF n(3)] unsigned [OF n(4)] s
    by (intro conjI)
qed

text \<open>
  The claim as worded (keys in lexicographic order) fails on the code: for the example
  envelope the signed bytes start with the id, the sorted encoding with the conversation.
\<close>

theorem signed_bytes_lexicographic_counterexample:
  "signMessage_payload example_envelope \<noteq> spec_canonical_bytes example_envelope"
  by code_simp

section \<open>Egress: proofs\<close>

lemma map_of_assign_same: "map_of (assign_props kvs k v) k = Some v"
  by (induction kvs k v rule: assign_props.induct) auto

lemma get_prop_set_same: "get_prop (set_prop (JObj kvs) k v) k = Some v"
  by (simp add: map_of_assign_same)

lemma maybeEncrypt_keeps_signature:
  "get_prop (maybeEncryptEnvelope c config cs ephemeral nonce envelope) ''signature''
     = get_prop envelope ''signature''"
  by (simp add: maybeEncryptEnvelope_def Let_def get_prop_set_other split: option.splits)

lemma createEnvelope_signature:
  "createEnvelope crypto_sign config key uuid1 uuid2 nowIso args
     = set_prop (createEnvelope_unsigned config uuid1 uuid2 nowIso args) ''signature''
         (JStr (crypto_sign
            (signMessage_payload (createEnvelope_unsigned config uuid1 uuid2 nowIso args)) key))"
  by (simp add: createEnvelope_def Let_def signMessage_def)

lemma createEnvelope_unsigned_obj:
  "\<exists>kvs. createEnvelope_unsigned config uuid1 uuid2 nowIso args = JObj kvs"
  by (simp add: createEnvelope_unsigned_def Let_def)

text \<open>
  Whatever the primitives are: the signature on the wire is the one made at creation,
  over the canonical bytes of the envelope with the payload as given (the plaintext).
\<close>

lemma wire_signature_is_creation_signature:
  assumes "sendMessage_wire c config cs ephemeral nonce
             (createEnvelope crypto_sign config key uuid1 uuid2 nowIso args) = Inr wire"
  shows "get_prop wire ''signature''
     = Some (JStr (crypto_sign
          (signMessage_payload (createEnvelope_unsigned config uuid1 uuid2 nowIso args)) key))"
proof -
  obtain kvs where u: "createEnvelope_unsigned config uuid1 uuid2 nowIso args = JObj kvs"
    using createEnvelope_unsigned_obj by blast
  have "wire = maybeEncryptEnvelope c config cs ephemeral nonce
                 (createEnvelope crypto_sign config key uuid1 uuid2 nowIso args)"
    using assms by (simp add: sendMessage_wire_def Let_def split: if_splits)
  then have "get_prop wire ''signature''
      = get_prop (createEnvelope crypto_sign config key uuid1 uuid2 nowIso args) ''signature''"
    by (simp add: maybeEncrypt_keeps_signature)
  then show ?thesis
    unfolding createEnvelope_signature u by (simp add: map_of_assign_same)
qed

lemma example_send_wire:
  "sendMessage_wire (toy_crypto JNull) example_config example_contacts 2 ''nonce''
       example_plain_envelope = Inr example_wire_envelope"
  by code_simp

lemma example_wire_encrypted: "isEncrypted (get_prop example_wire_envelope ''payload'')"
  by code_simp

lemma example_wire_signature:
  "get_prop example_wire_envelope ''signature''
       = Some (JStr (toy_sign (signMessage_payload example_plain_envelope) ''alice-key''))"
  by code_simp

lemma example_wire_signature_not_over_wire:
  "get_prop example_wire_envelope ''signature''
       \<noteq> Some (JStr (toy_sign (signMessage_payload example_wire_envelope) ''alice-key''))"
  by code_simp

lemma example_wire_not_verified:
  "\<not> verifyMessage toy_verify example_wire_envelope
           (the (get_prop example_wire_envelope ''signature'')) (JStr ''alice-key'')"
  by code_simp

lemma example_plain_verified:
  "verifyMessage toy_verify example_plain_envelope
           (the (get_prop example_plain_envelope ''signature'')) (JStr ''alice-key'')"
  by code_simp

text \<open>
  C1. The claim asks that the signature of a delivered envelope with an encrypted payload
  be computed over the encrypted payload. The code signs in \<^verbatim>\<open>createEnvelope\<close> and
  encrypts afterwards in \<^verbatim>\<open>sendMessage\<close> without signing again. In the concrete send
  below (recipient key known, encryption on), the envelope on the wire carries the
  encrypted payload object, its signature is the one over the bytes with the plaintext
  payload, it is not the signature over the bytes of the envelope as delivered, and the
  receiver's \<^verbatim>\<open>verifyMessage\<close> on the delivered envelope fails, while it succeeds on the
  envelope before encryption.
\<close>

theorem sendMessage_signature_covers_plaintext:
  "sendMessage_wire (toy_crypto JNull) example_config example_contacts 2 ''nonce''
       example_plain_envelope = Inr example_wire_envelope
   \<and> isEncrypted (get_prop example_wire_envelope ''payload'')
   \<and> get_prop example_wire_envelope ''signature''
       = Some (JStr (toy_sign (signMessage_payload example_plain_envelope) ''alice-key''))
   \<and> get_prop example_wire_envelope ''signature''
       \<noteq> Some (JStr (toy_sign (signMessage_payload example_wire_envelope) ''alice-key''))
   \<and> \<not> verifyMessage toy_verify example_wire_envelope
           (the (get_prop example_wire_envelope ''signature'')) (JStr ''alice-key'')
   \<and> verifyMessage toy_verify example_plain_envelope
           (the (get_prop example_plain_envelope ''signature'')) (JStr ''alice-key'')"
  using example_send_wire example_wire_encrypted example_wire_signature
    example_wire_signature_not_over_wire example_wire_not_verified example_plain_verified
  by (intro conjI)

section \<open>Signature round trip: proofs\<close>

lemma read_show_nat: "read_nat (show_nat n) = n"
proof (induction n rule: show_nat.induct)
  case (1 n)
  show ?case
  proof (cases "n < 10")
    case True
    then show ?thesis by (simp add: show_nat.simps [of n] read_nat_def digit_char_def)
  next
    case False
    then have "read_nat (show_nat (n div 10)) = n div 10" using "1.IH" by simp
    with False show ?thesis
      by (simp add: show_nat.simps [of n] read_nat_def digit_char_def)
  qed
qed

lemma show_nat_inj: "show_nat n = show_nat m \<Longrightarrow> n = m"
  by (metis read_show_nat)

lemma show_nat_nonempty: "show_nat n \<noteq> []"
  by (subst show_nat.simps) simp

lemma show_nat_numchar: "c \<in> set (show_nat n) \<Longrightarrow> numchar c"
  using show_nat_chars [of c n] by (simp add: numchar_def)

lemma show_nat_no_minus: "show_nat n \<noteq> CHR ''-'' # s"
proof
  assume "show_nat n = CHR ''-'' # s"
  then have "CHR ''-'' \<in> set (show_nat n)" by simp
  from show_nat_chars [OF this] show False by simp
qed

lemma show_int_inj: "show_int i = show_int j \<Longrightarrow> i = j"
  using show_nat_no_minus
  by (auto simp: show_int_def split: if_splits dest!: show_nat_inj) metis+

lemma show_int_nonempty: "show_int i \<noteq> []"
  by (simp add: show_int_def show_nat_nonempty)

lemma show_int_numchar: "c \<in> set (show_int i) \<Longrightarrow> numchar c"
  by (auto simp: show_int_def numchar_def dest: show_nat_chars split: if_splits)

lemma takeWhile_prefix:
  "\<forall>c \<in> set ds. P c \<Longrightarrow> (case x of [] \<Rightarrow> True | c # cs \<Rightarrow> \<not> P c) \<Longrightarrow> takeWhile P (ds @ x) = ds"
  by (induction ds) (auto split: list.splits)

lemma num_prefix_inj:
  assumes "\<forall>c \<in> set ds. numchar c" "\<forall>c \<in> set es. numchar c" "follow x" "follow y"
    and "ds @ x = es @ y"
  shows "ds = es \<and> x = y"
proof -
  have "takeWhile numchar (ds @ x) = ds"
    by (rule takeWhile_prefix [OF assms(1)]) (use assms(3) in \<open>simp add: follow_def\<close>)
  moreover have "takeWhile numchar (es @ y) = es"
    by (rule takeWhile_prefix [OF assms(2)]) (use assms(4) in \<open>simp add: follow_def\<close>)
  ultimately have "ds = es" using assms(5) by simp
  with assms(5) show ?thesis by simp
qed

lemma hex_digit_code: "d < 16 \<Longrightarrow> (of_char (hex_digit d) :: nat) = (if d < 10 then 48 + d else 87 + d)"
  by (simp add: hex_digit_def)

lemma hex_digit_inj:
  assumes "a < 16" "b < 16" "hex_digit a = hex_digit b"
  shows "a = b"
proof -
  have "(of_char (hex_digit a) :: nat) = of_char (hex_digit b)" using assms(3) by simp
  then show ?thesis using assms(1,2) by (simp add: hex_digit_code split: if_splits)
qed

lemma hex_pair_inj:
  assumes "n < 32" "m < 32" "hex_digit (n div 16) = hex_digit (m div 16)"
    "hex_digit (n mod 16) = hex_digit (m mod 16)"
  shows "n = (m :: nat)"
proof -
  have "n div 16 = m div 16" using assms(1,2,3) by (intro hex_digit_inj) simp_all
  moreover have "n mod 16 = m mod 16" using assms(4) by (intro hex_digit_inj) simp_all
  ultimately show ?thesis by (metis div_mult_mod_eq)
qed

lemma quote_char_plain: "\<not> escaped c \<Longrightarrow> quote_char c = [c]"
  by (auto simp: quote_char_def escaped_def Let_def)

lemma quote_char_escaped:
  "escaped c \<Longrightarrow> \<exists>r. quote_char c = CHR 0x5C # r"
  by (auto simp: quote_char_def escaped_def Let_def)

lemma plain_not_special: "\<not> escaped c \<Longrightarrow> c \<noteq> CHR 0x5C \<and> c \<noteq> CHR 0x22"
  by (auto simp: escaped_def)

lemma quote_char_escaped_inj:
  assumes "escaped c" "escaped d" "quote_char c @ x = quote_char d @ y"
  shows "c = d \<and> x = y"
proof -
  define n where "n = (of_char c :: nat)"
  define m where "m = (of_char d :: nat)"
  have "n = m \<and> x = y"
    using assms(3) assms(1,2) hex_pair_inj [of n m]
    unfolding quote_char_def Let_def escaped_def n_def [symmetric] m_def [symmetric]
    by (auto split: if_splits) 
  then show ?thesis by (simp add: n_def m_def)
qed

lemma quote_char_inj: "quote_char c @ x = quote_char d @ y \<Longrightarrow> c = d \<and> x = y"
proof (cases "escaped c"; cases "escaped d")
  assume "escaped c" "escaped d" "quote_char c @ x = quote_char d @ y"
  then show ?thesis by (rule quote_char_escaped_inj)
next
  assume a: "escaped c" "\<not> escaped d" "quote_char c @ x = quote_char d @ y"
  then show ?thesis using quote_char_escaped [of c] quote_char_plain [of d] plain_not_special [of d] by auto
next
  assume a: "\<not> escaped c" "escaped d" "quote_char c @ x = quote_char d @ y"
  then show ?thesis using quote_char_escaped [of d] quote_char_plain [of c] plain_not_special [of c] by auto
next
  assume a: "\<not> escaped c" "\<not> escaped d" "quote_char c @ x = quote_char d @ y"
  then show ?thesis by (simp add: quote_char_plain)
qed

lemma quote_char_start: "\<exists>e r. quote_char c = e # r \<and> e \<noteq> CHR 0x22"
  using quote_char_escaped [of c] quote_char_plain [of c] plain_not_special [of c]
  by (cases "escaped c") auto

lemma escapes_inj:
  "concat (map quote_char s) @ CHR 0x22 # x = concat (map quote_char t) @ CHR 0x22 # y
    \<Longrightarrow> s = t \<and> x = y"
proof (induction s arbitrary: t)
  case Nil
  show ?case
  proof (cases t)
    case Nil
    with Nil.prems show ?thesis by simp
  next
    case (Cons d t')
    obtain e r where "quote_char d = e # r" "e \<noteq> CHR 0x22" using quote_char_start by blast
    with Nil.prems Cons show ?thesis by simp
  qed
next
  case (Cons c s)
  show ?case
  proof (cases t)
    case Nil
    obtain e r where "quote_char c = e # r" "e \<noteq> CHR 0x22" using quote_char_start by blast
    with Cons.prems Nil show ?thesis by simp
  next
    case (Cons d t')
    with Cons.prems have
      "quote_char c @ (concat (map quote_char s) @ CHR 0x22 # x)
        = quote_char d @ (concat (map quote_char t') @ CHR 0x22 # y)" by simp
    from quote_char_inj [OF this] have cd: "c = d"
      and r: "concat (map quote_char s) @ CHR 0x22 # x = concat (map quote_char t') @ CHR 0x22 # y"
      by simp_all
    from Cons.IH [OF r] cd Cons show ?thesis by simp
  qed
qed

lemma quote_string_inj: "quote_string s @ x = quote_string t @ y \<Longrightarrow> s = t \<and> x = y"
  using escapes_inj [of s x t y] by (simp add: quote_string_def)

lemma show_int_start: "\<exists>e r. show_int n = e # r \<and> numchar e"
proof (cases "show_int n")
  case Nil
  then show ?thesis using show_int_nonempty by simp
next
  case (Cons e r)
  then have "e \<in> set (show_int n)" by simp
  from show_int_numchar [OF this] Cons show ?thesis by simp
qed

lemma show_int_zero: "show_int 0 = ''0''"
  by (simp add: show_int_def show_nat.simps [of 0] digit_char_def char_eq_code [of _ "CHR ''0''"])

lemma number_json_serialised: "JSON_stringify (serialised_number x) = number_json x"
  by (cases x) (simp_all add: serialised_number_def number_json_def show_int_zero)

lemma stringify_serialised:
  "JSON_stringify (serialised v) = JSON_stringify v"
  "stringify_elems (serialised_elems xs) = stringify_elems xs"
  "stringify_props (serialised_props ps) = stringify_props ps"
proof (induction v and xs and ps rule: JSON_stringify_stringify_elems_stringify_props.induct)
  case (3 n)
  show ?case by (simp add: number_json_serialised)
next
  case (12 k v p ps)
  then show ?case by (cases p) simp
qed simp_all

lemma serialised_null: "serialised w = JNull \<Longrightarrow> JSON_stringify w = ''null''"
  using stringify_serialised(1) [of w] by simp

lemma serialised_number_safe: "serialised_number x = JNum n \<Longrightarrow> \<exists>c. n = SafeInteger c"
  by (cases x) (auto simp: serialised_number_def)

lemma serialised_num:
  assumes "serialised w = JNum n"
  shows "\<exists>c. n = SafeInteger c \<and> JSON_stringify w = show_int (sint c)"
proof -
  from assms obtain x where w: "w = JNum x" by (cases w) (auto simp: serialised_number_def split: js_number.splits)
  with assms obtain c where c: "n = SafeInteger c" using serialised_number_safe by auto
  have "JSON_stringify w = JSON_stringify (JNum (SafeInteger c))"
    using stringify_serialised(1) [of w] assms c by simp
  with c show ?thesis by (simp add: number_json_def)
qed

lemma serialised_bool: "serialised w = JBool b \<Longrightarrow> w = JBool b"
  by (cases w) (auto simp: serialised_number_def split: js_number.splits)

lemma serialised_str: "serialised w = JStr s \<Longrightarrow> w = JStr s"
  by (cases w) (auto simp: serialised_number_def split: js_number.splits)

lemma serialised_arr: "serialised w = JArr zs \<Longrightarrow> \<exists>ys. w = JArr ys"
  by (cases w) (auto simp: serialised_number_def split: js_number.splits)

lemma serialised_obj: "serialised w = JObj zs \<Longrightarrow> \<exists>qs. w = JObj qs"
  by (cases w) (auto simp: serialised_number_def split: js_number.splits)

lemma stringify_start:
  "\<exists>e r. JSON_stringify v = e # r \<and>
    (case serialised v of JNull \<Rightarrow> e = CHR ''n'' | JBool b \<Rightarrow> e = CHR ''t'' \<or> e = CHR ''f''
     | JNum n \<Rightarrow> numchar e | JStr s \<Rightarrow> e = CHR 0x22 | JArr xs \<Rightarrow> e = CHR ''[''
     | JObj ps \<Rightarrow> e = CHR ''{'')"
proof (cases v)
  case (JNum x)
  show ?thesis
  proof (cases x)
    case (SafeInteger w)
    with JNum show ?thesis using show_int_start [of "sint w"]
      by (auto simp: number_json_def serialised_number_def)
  qed (use JNum in \<open>simp_all add: number_json_def serialised_number_def numchar_def\<close>)
qed (auto simp: quote_string_def)

lemma stringify_kind:
  assumes "JSON_stringify v @ x = JSON_stringify w @ y"
  shows "json_kind (serialised v) = json_kind (serialised w)"
proof -
  obtain e r where v: "JSON_stringify v = e # r"
    and ve: "(case serialised v of JNull \<Rightarrow> e = CHR ''n'' | JBool b \<Rightarrow> e = CHR ''t'' \<or> e = CHR ''f''
     | JNum n \<Rightarrow> numchar e | JStr s \<Rightarrow> e = CHR 0x22 | JArr xs \<Rightarrow> e = CHR ''[''
     | JObj ps \<Rightarrow> e = CHR ''{'')"
    using stringify_start [of v] by blast
  obtain e' r' where w: "JSON_stringify w = e' # r'"
    and we: "(case serialised w of JNull \<Rightarrow> e' = CHR ''n'' | JBool b \<Rightarrow> e' = CHR ''t'' \<or> e' = CHR ''f''
     | JNum n \<Rightarrow> numchar e' | JStr s \<Rightarrow> e' = CHR 0x22 | JArr xs \<Rightarrow> e' = CHR ''[''
     | JObj ps \<Rightarrow> e' = CHR ''{'')"
    using stringify_start [of w] by blast
  from assms v w have "e = e'" by simp
  with ve we show ?thesis by (cases "serialised v"; cases "serialised w") (auto simp: numchar_def)
qed

lemma stringify_start_sep:
  "\<exists>e r. JSON_stringify v = e # r \<and> e \<noteq> CHR '']'' \<and> e \<noteq> CHR ''}'' \<and> e \<noteq> CHR '',''"
  using stringify_start [of v] by (cases "serialised v") (auto simp: numchar_def)

lemma elems_start: "\<exists>e r. stringify_elems (v # vs) = e # r \<and> e \<noteq> CHR '']''"
  using stringify_start_sep [of v] by (cases vs) auto

lemma props_start: "\<exists>r. stringify_props (p # ps) = CHR 0x22 # r"
  by (cases p; cases ps) (auto simp: quote_string_def)

lemma follow_sep: "follow (CHR '']'' # x)" "follow (CHR ''}'' # x)" "follow (CHR '','' # x)"
  by (simp_all add: follow_def numchar_def)

lemma stringify_scalar:
  assumes k: "json_kind (serialised v) \<le> 2"
    and fx: "follow x" and fy: "follow y"
    and e: "JSON_stringify v @ x = JSON_stringify w @ y"
  shows "serialised v = serialised w \<and> x = y"
proof -
  note kk = stringify_kind [OF e]
  show ?thesis
  proof (cases "serialised v")
    case JNull
    with kk have w: "serialised w = JNull" by (cases "serialised w") simp_all
    from e serialised_null [OF JNull] serialised_null [OF w] have "x = y" by simp
    with JNull w show ?thesis by simp
  next
    case (JBool b)
    with kk obtain b' where w: "serialised w = JBool b'" by (cases "serialised w") simp_all
    from serialised_bool [OF JBool] serialised_bool [OF w] e
    have "b = b' \<and> x = y" by (cases b; cases b') simp_all
    with JBool w show ?thesis by simp
  next
    case (JNum n)
    with kk obtain n' where w: "serialised w = JNum n'" by (cases "serialised w") simp_all
    from serialised_num [OF JNum] obtain a where
      a: "n = SafeInteger a" "JSON_stringify v = show_int (sint a)" by blast
    from serialised_num [OF w] obtain c where
      c: "n' = SafeInteger c" "JSON_stringify w = show_int (sint c)" by blast
    from e a(2) c(2) have e': "show_int (sint a) @ x = show_int (sint c) @ y" by simp
    have "show_int (sint a) = show_int (sint c) \<and> x = y"
      by (rule num_prefix_inj [OF _ _ fx fy e']) (simp_all add: show_int_numchar)
    then have "sint a = sint c" and xy: "x = y" by (simp_all add: show_int_inj)
    then have "a = c" by (simp add: signed_word_eqI)
    with JNum w a(1) c(1) xy show ?thesis by simp
  next
    case (JStr s)
    with k show ?thesis by simp
  next
    case (JArr zs)
    with k show ?thesis by simp
  next
    case (JObj zs)
    with k show ?thesis by simp
  qed
qed

lemma stringify_inj_aux:
  "follow x \<Longrightarrow> follow y \<Longrightarrow> JSON_stringify v @ x = JSON_stringify w @ y
     \<Longrightarrow> serialised v = serialised w \<and> x = y"
  "stringify_elems xs @ CHR '']'' # x = stringify_elems ys @ CHR '']'' # y
     \<Longrightarrow> serialised_elems xs = serialised_elems ys \<and> x = y"
  "stringify_props ps @ CHR ''}'' # x = stringify_props qs @ CHR ''}'' # y
     \<Longrightarrow> serialised_props ps = serialised_props qs \<and> x = y"
proof (induction v and xs and ps arbitrary: w x y and ys x y and qs x y
    rule: JSON_stringify_stringify_elems_stringify_props.induct)
  case 1
  show ?case by (rule stringify_scalar [OF _ "1.prems"]) simp
next
  case (2 b)
  show ?case by (rule stringify_scalar [OF _ "2.prems"]) simp
next
  case (3 n)
  show ?case
    by (rule stringify_scalar [OF _ "3.prems"])
       (cases n; simp add: serialised_number_def)
next
  case (4 s)
  from stringify_kind [OF "4.prems"(3)] obtain t where "serialised w = JStr t"
    by (cases "serialised w") simp_all
  then have w: "w = JStr t" by (rule serialised_str)
  with "4.prems"(3) have "quote_string s @ x = quote_string t @ y" by simp
  from quote_string_inj [OF this] w show ?case by simp
next
  case (5 xs)
  from stringify_kind [OF "5.prems"(3)] obtain zs where "serialised w = JArr zs"
    by (cases "serialised w") simp_all
  then obtain ys where w: "w = JArr ys" using serialised_arr by blast
  with "5.prems"(3) have "stringify_elems xs @ CHR '']'' # x = stringify_elems ys @ CHR '']'' # y"
    by simp
  from "5.IH" [OF this] w show ?case by simp
next
  case (6 kvs)
  from stringify_kind [OF "6.prems"(3)] obtain zs where "serialised w = JObj zs"
    by (cases "serialised w") simp_all
  then obtain qs where w: "w = JObj qs" using serialised_obj by blast
  with "6.prems"(3) have "stringify_props kvs @ CHR ''}'' # x = stringify_props qs @ CHR ''}'' # y"
    by simp
  from "6.IH" [OF this] w show ?case by simp
next
  case 7
  show ?case
  proof (cases ys)
    case Nil
    with "7.prems" show ?thesis by simp
  next
    case (Cons w ws)
    obtain e r where "stringify_elems (w # ws) = e # r" "e \<noteq> CHR '']''"
      using elems_start by blast
    with "7.prems" Cons show ?thesis by simp
  qed
next
  case (8 v)
  show ?case
  proof (cases ys)
    case Nil
    obtain e r where "JSON_stringify v = e # r" "e \<noteq> CHR '']''"
      using stringify_start_sep by blast
    with "8.prems" Nil show ?thesis by simp
  next
    case (Cons w ws)
    show ?thesis
    proof (cases ws)
      case Nil
      with "8.prems" Cons have "JSON_stringify v @ (CHR '']'' # x) = JSON_stringify w @ (CHR '']'' # y)"
        by simp
      from "8.IH" [OF follow_sep(1) follow_sep(1) this] Cons Nil show ?thesis by simp
    next
      case (Cons w' ws')
      with "8.prems" \<open>ys = w # ws\<close> have
        "JSON_stringify v @ (CHR '']'' # x)
          = JSON_stringify w @ (CHR '','' # (stringify_elems (w' # ws') @ CHR '']'' # y))"
        by simp
      from "8.IH" [OF follow_sep(1) follow_sep(3) this] show ?thesis by simp
    qed
  qed
next
  case (9 v v' vs)
  show ?case
  proof (cases ys)
    case Nil
    obtain e r where "JSON_stringify v = e # r" "e \<noteq> CHR '']''"
      using stringify_start_sep by blast
    with "9.prems" Nil show ?thesis by simp
  next
    case (Cons w ws)
    show ?thesis
    proof (cases ws)
      case Nil
      with "9.prems" Cons have
        "JSON_stringify v @ (CHR '','' # (stringify_elems (v' # vs) @ CHR '']'' # x))
          = JSON_stringify w @ (CHR '']'' # y)"
        by simp
      from "9.IH"(1) [OF follow_sep(3) follow_sep(1) this] show ?thesis by simp
    next
      case (Cons w' ws')
      with "9.prems" \<open>ys = w # ws\<close> have
        "JSON_stringify v @ (CHR '','' # (stringify_elems (v' # vs) @ CHR '']'' # x))
          = JSON_stringify w @ (CHR '','' # (stringify_elems (w' # ws') @ CHR '']'' # y))"
        by simp
      from "9.IH"(1) [OF follow_sep(3) follow_sep(3) this] have vw: "serialised v = serialised w"
        and r: "stringify_elems (v' # vs) @ CHR '']'' # x = stringify_elems (w' # ws') @ CHR '']'' # y"
        by simp_all
      from "9.IH"(2) [OF r] vw Cons \<open>ys = w # ws\<close> show ?thesis by simp
    qed
  qed
next
  case 10
  show ?case
  proof (cases qs)
    case Nil
    with "10.prems" show ?thesis by simp
  next
    case (Cons q qs')
    obtain r where "stringify_props (q # qs') = CHR 0x22 # r" using props_start by blast
    with "10.prems" Cons show ?thesis by simp
  qed
next
  case (11 k v)
  show ?case
  proof (cases qs)
    case Nil
    with "11.prems" show ?thesis by (simp add: quote_string_def)
  next
    case (Cons q qs')
    obtain k' w where q: "q = (k', w)" by (cases q)
    show ?thesis
    proof (cases qs')
      case Nil
      with "11.prems" Cons q have
        "quote_string k @ (CHR '':'' # JSON_stringify v @ CHR ''}'' # x)
          = quote_string k' @ (CHR '':'' # JSON_stringify w @ CHR ''}'' # y)"
        by simp
      from quote_string_inj [OF this] have kk: "k = k'"
        and r: "JSON_stringify v @ (CHR ''}'' # x) = JSON_stringify w @ (CHR ''}'' # y)"
        by simp_all
      from "11.IH" [OF follow_sep(2) follow_sep(2) r] kk Cons Nil q show ?thesis by simp
    next
      case (Cons q' qs'')
      with "11.prems" \<open>qs = q # qs'\<close> q have
        "quote_string k @ (CHR '':'' # JSON_stringify v @ CHR ''}'' # x)
          = quote_string k' @ (CHR '':'' # JSON_stringify w @ CHR '','' # stringify_props (q' # qs'') @ CHR ''}'' # y)"
        by simp
      from quote_string_inj [OF this] have
        r: "JSON_stringify v @ (CHR ''}'' # x)
          = JSON_stringify w @ (CHR '','' # (stringify_props (q' # qs'') @ CHR ''}'' # y))"
        by simp
      from "11.IH" [OF follow_sep(2) follow_sep(3) r] show ?thesis by simp
    qed
  qed
next
  case (12 k v p ps)
  show ?case
  proof (cases qs)
    case Nil
    with "12.prems" show ?thesis by (simp add: quote_string_def)
  next
    case (Cons q qs')
    obtain k' w where q: "q = (k', w)" by (cases q)
    show ?thesis
    proof (cases qs')
      case Nil
      with "12.prems" Cons q have
        "quote_string k @ (CHR '':'' # JSON_stringify v @ CHR '','' # stringify_props (p # ps) @ CHR ''}'' # x)
          = quote_string k' @ (CHR '':'' # JSON_stringify w @ CHR ''}'' # y)"
        by simp
      from quote_string_inj [OF this] have
        r: "JSON_stringify v @ (CHR '','' # (stringify_props (p # ps) @ CHR ''}'' # x))
          = JSON_stringify w @ (CHR ''}'' # y)"
        by simp
      from "12.IH"(1) [OF follow_sep(3) follow_sep(2) r] show ?thesis by simp
    next
      case (Cons q' qs'')
      with "12.prems" \<open>qs = q # qs'\<close> q have
        "quote_string k @ (CHR '':'' # JSON_stringify v @ CHR '','' # stringify_props (p # ps) @ CHR ''}'' # x)
          = quote_string k' @ (CHR '':'' # JSON_stringify w @ CHR '','' # stringify_props (q' # qs'') @ CHR ''}'' # y)"
        by simp
      from quote_string_inj [OF this] have kk: "k = k'"
        and r: "JSON_stringify v @ (CHR '','' # (stringify_props (p # ps) @ CHR ''}'' # x))
          = JSON_stringify w @ (CHR '','' # (stringify_props (q' # qs'') @ CHR ''}'' # y))"
        by simp_all
      from "12.IH"(1) [OF follow_sep(3) follow_sep(3) r] have vw: "serialised v = serialised w"
        and r': "stringify_props (p # ps) @ CHR ''}'' # x = stringify_props (q' # qs'') @ CHR ''}'' # y"
        by simp_all
      from "12.IH"(2) [OF r'] kk vw Cons \<open>qs = q # qs'\<close> q show ?thesis by simp
    qed
  qed
qed

lemma JSON_stringify_eq_iff:
  "(JSON_stringify v = JSON_stringify w) = (serialised v = serialised w)"
proof
  assume "JSON_stringify v = JSON_stringify w"
  then show "serialised v = serialised w"
    using stringify_inj_aux(1) [of "[]" "[]" v w] by (simp add: follow_def)
next
  assume "serialised v = serialised w"
  then show "JSON_stringify v = JSON_stringify w"
    using stringify_serialised(1) [of v] stringify_serialised(1) [of w] by simp
qed

lemma drop_undefined_keys: "fst ` set (drop_undefined (map (\<lambda>k. (k, f k)) ks)) \<subseteq> set ks"
proof (induction ks)
  case Nil
  show ?case by simp
next
  case (Cons a ks)
  then show ?case by (cases "f a") auto
qed

lemma drop_undefined_inj:
  "distinct ks \<Longrightarrow>
   drop_undefined (map (\<lambda>k. (k, f k)) ks) = drop_undefined (map (\<lambda>k. (k, g k)) ks) \<Longrightarrow>
   \<forall>k\<in>set ks. f k = g k"
proof (induction ks)
  case Nil
  show ?case by simp
next
  case (Cons a ks)
  have a: "a \<notin> set ks" and d: "distinct ks" using Cons.prems(1) by simp_all
  have nf: "(a, v) \<notin> set (drop_undefined (map (\<lambda>k. (k, f k)) ks))" for v
    using drop_undefined_keys [of f ks] a by force
  have ng: "(a, v) \<notin> set (drop_undefined (map (\<lambda>k. (k, g k)) ks))" for v
    using drop_undefined_keys [of g ks] a by force
  show ?case
  proof (cases "f a")
    case None
    note fa = None
    show ?thesis
    proof (cases "g a")
      case None
      with fa Cons.prems(2) have
        "drop_undefined (map (\<lambda>k. (k, f k)) ks) = drop_undefined (map (\<lambda>k. (k, g k)) ks)"
        by simp
      from Cons.IH [OF d this] fa None show ?thesis by simp
    next
      case (Some v)
      with fa Cons.prems(2) have
        "drop_undefined (map (\<lambda>k. (k, f k)) ks) = (a, v) # drop_undefined (map (\<lambda>k. (k, g k)) ks)"
        by simp
      then have "(a, v) \<in> set (drop_undefined (map (\<lambda>k. (k, f k)) ks))" by simp
      with nf show ?thesis by simp
    qed
  next
    case (Some u)
    note fa = Some
    show ?thesis
    proof (cases "g a")
      case None
      with fa Cons.prems(2) have
        "(a, u) # drop_undefined (map (\<lambda>k. (k, f k)) ks) = drop_undefined (map (\<lambda>k. (k, g k)) ks)"
        by simp
      then have "(a, u) \<in> set (drop_undefined (map (\<lambda>k. (k, g k)) ks))"
        by (metis list.set_intros(1))
      with ng show ?thesis by simp
    next
      case (Some v)
      with fa Cons.prems(2) have uv: "u = v" and
        r: "drop_undefined (map (\<lambda>k. (k, f k)) ks) = drop_undefined (map (\<lambda>k. (k, g k)) ks)"
        by simp_all
      from Cons.IH [OF d r] fa Some uv show ?thesis by simp
    qed
  qed
qed

lemma serialised_props_drop:
  "serialised_props (drop_undefined (map (\<lambda>k. (k, f k)) ks))
     = drop_undefined (map (\<lambda>k. (k, map_option serialised (f k))) ks)"
proof (induction ks)
  case Nil
  show ?case by simp
next
  case (Cons a ks)
  then show ?case by (cases "f a") simp_all
qed

lemma signed_fields_distinct: "distinct signed_fields"
  by (simp add: signed_fields_def)

lemma sign_payload_eq_iff:
  "(signMessage_payload E' = signMessage_payload E)
    = (\<forall>k\<in>set signed_fields.
         map_option serialised (get_prop E' k) = map_option serialised (get_prop E k))"
proof -
  have "(signMessage_payload E' = signMessage_payload E)
      = (serialised (select_fields signed_fields E') = serialised (select_fields signed_fields E))"
    unfolding sign_payload_select by (rule JSON_stringify_eq_iff)
  also have "\<dots> = (drop_undefined (map (\<lambda>k. (k, map_option serialised (get_prop E' k))) signed_fields)
      = drop_undefined (map (\<lambda>k. (k, map_option serialised (get_prop E k))) signed_fields))"
    by (simp add: select_fields_def serialised_props_drop)
  also have "\<dots> = (\<forall>k\<in>set signed_fields.
         map_option serialised (get_prop E' k) = map_option serialised (get_prop E k))"
  proof
    assume "drop_undefined (map (\<lambda>k. (k, map_option serialised (get_prop E' k))) signed_fields)
      = drop_undefined (map (\<lambda>k. (k, map_option serialised (get_prop E k))) signed_fields)"
    from drop_undefined_inj [OF signed_fields_distinct this]
    show "\<forall>k\<in>set signed_fields.
         map_option serialised (get_prop E' k) = map_option serialised (get_prop E k)" .
  next
    assume "\<forall>k\<in>set signed_fields.
         map_option serialised (get_prop E' k) = map_option serialised (get_prop E k)"
    then show "drop_undefined (map (\<lambda>k. (k, map_option serialised (get_prop E' k))) signed_fields)
      = drop_undefined (map (\<lambda>k. (k, map_option serialised (get_prop E k))) signed_fields)"
      by (rule drop_undefined_cong)
  qed
  finally show ?thesis .
qed

lemma verify_signed_iff:
  assumes "\<forall>m m'. crypto_verify m' pk (JStr (crypto_sign m sk)) = Some (m' = m)"
  shows "verifyMessage crypto_verify E' (JStr (signMessage crypto_sign E sk)) pk
    = (\<forall>k\<in>set signed_fields.
         map_option serialised (get_prop E' k) = map_option serialised (get_prop E k))"
  unfolding verifyMessage_def signMessage_def verify_payload_eq
  using assms sign_payload_eq_iff [of E' E] by simp

text \<open>
  C9 (as the code has it). Let the key pair \<open>(sk, pk)\<close> be such that Node's Ed25519
  verification under \<open>pk\<close> accepts a signature made with \<open>sk\<close> exactly for the bytes that
  were signed, and let \<open>E\<close> and \<open>E'\<close> be envelopes of the code (values other than \<^verbatim>\<open>null\<close>,
  their objects listed in enumeration order). Then the signature returned by
  \<^verbatim>\<open>signMessage\<close> for \<open>E\<close> passes \<^verbatim>\<open>verifyMessage\<close> on \<open>E\<close>; and it passes on \<open>E'\<close> exactly
  when each of the eight signed fields is present in both or absent in both and, where
  present, serialises alike: the same value up to what \<^verbatim>\<open>JSON.stringify\<close> keeps, which
  writes an infinity or \<^verbatim>\<open>NaN\<close> as \<^verbatim>\<open>null\<close> and the negative zero as \<^verbatim>\<open>0\<close>. So a change of
  a signed field makes verification return false unless it only exchanges such values.
\<close>

theorem signature_round_trip:
  assumes "\<forall>m m'. crypto_verify m' pk (JStr (crypto_sign m sk)) = Some (m' = m)"
    and "js_value E" and "E \<noteq> JNull"
  shows "verifyMessage crypto_verify E (JStr (signMessage crypto_sign E sk)) pk
    \<and> (\<forall>E'. js_value E' \<and> E' \<noteq> JNull \<longrightarrow>
          verifyMessage crypto_verify E' (JStr (signMessage crypto_sign E sk)) pk
          = (\<forall>k\<in>set signed_fields.
               map_option serialised (get_prop E' k) = map_option serialised (get_prop E k)))"
proof -
  note iff = verify_signed_iff [where crypto_verify = crypto_verify and pk = pk
      and crypto_sign = crypto_sign and sk = sk, OF assms(1)]
  have 1: "verifyMessage crypto_verify E (JStr (signMessage crypto_sign E sk)) pk"
    unfolding iff by simp
  have 2: "verifyMessage crypto_verify E' (JStr (signMessage crypto_sign E sk)) pk
          = (\<forall>k\<in>set signed_fields.
               map_option serialised (get_prop E' k) = map_option serialised (get_prop E k))" for E'
    by (rule iff)
  from 1 2 show ?thesis by blast
qed

lemma toy_signature_ideal:
  "\<forall>m m'. toy_verify m' (JStr key) (JStr (toy_sign m key)) = Some (m' = m)"
  by (auto simp: toy_verify_def toy_sign_def)

lemma example_envelope_js_value: "js_value example_envelope \<and> example_envelope \<noteq> JNull"
  by (simp add: example_envelope_def own_keys_order_def array_index_def digit_only_def)

lemma retargeted_envelope_js_value:
  "js_value retargeted_envelope \<and> retargeted_envelope \<noteq> JNull"
  by (simp add: retargeted_envelope_def example_envelope_def own_keys_order_def
      array_index_def digit_only_def)

lemma retargeted_envelope_differs:
  "\<not> (\<forall>k\<in>set signed_fields.
        map_option serialised (get_prop retargeted_envelope k)
          = map_option serialised (get_prop example_envelope k))"
  by (simp add: retargeted_envelope_def example_envelope_def signed_fields_def)

theorem signature_round_trip_witness:
  "verifyMessage toy_verify example_envelope
      (JStr (signMessage toy_sign example_envelope ''alice-key'')) (JStr ''alice-key'')
   \<and> \<not> verifyMessage toy_verify retargeted_envelope
      (JStr (signMessage toy_sign example_envelope ''alice-key'')) (JStr ''alice-key'')"
proof -
  note t = signature_round_trip [where crypto_verify = toy_verify and crypto_sign = toy_sign
      and pk = "JStr ''alice-key''" and sk = "''alice-key''" and E = example_envelope,
      OF toy_signature_ideal example_envelope_js_value [THEN conjunct1]
        example_envelope_js_value [THEN conjunct2]]
  from t have 1: "verifyMessage toy_verify example_envelope
      (JStr (signMessage toy_sign example_envelope ''alice-key'')) (JStr ''alice-key'')"
    by (rule conjunct1)
  from t [THEN conjunct2, rule_format, OF retargeted_envelope_js_value]
    retargeted_envelope_differs
  have 2: "\<not> verifyMessage toy_verify retargeted_envelope
      (JStr (signMessage toy_sign example_envelope ''alice-key'')) (JStr ''alice-key'')"
    by simp
  from 1 2 show ?thesis by (rule conjI)
qed

lemma limit_envelopes_js_value:
  "js_value null_limit_envelope \<and> null_limit_envelope \<noteq> JNull
   \<and> js_value infinite_limit_envelope \<and> infinite_limit_envelope \<noteq> JNull"
  by (simp add: infinite_limit_envelope_def null_limit_envelope_def example_envelope_def
      own_keys_order_def array_index_def digit_only_def)

lemma limit_envelopes_differ:
  "get_prop infinite_limit_envelope ''payload'' \<noteq> get_prop null_limit_envelope ''payload''"
  by (simp add: infinite_limit_envelope_def null_limit_envelope_def example_envelope_def)

lemma limit_envelopes_serialise_alike:
  "signMessage_payload infinite_limit_envelope = signMessage_payload null_limit_envelope"
  unfolding sign_payload_eq_iff
  by (simp add: infinite_limit_envelope_def null_limit_envelope_def example_envelope_def
      signed_fields_def serialised_number_def)

text \<open>
  The claim as worded (any mutation of a signed field breaks verification) fails on the
  code: an envelope signed with \<^verbatim>\<open>"limit": null\<close> in its payload and received with
  \<^verbatim>\<open>"limit": 1e999\<close>, which \<^verbatim>\<open>JSON.parse\<close> reads as \<^verbatim>\<open>Infinity\<close>, has another payload and
  still verifies, because \<^verbatim>\<open>JSON.stringify\<close> writes \<^verbatim>\<open>Infinity\<close> as \<^verbatim>\<open>null\<close>.
\<close>

theorem mutated_field_verifies_counterexample:
  "js_value null_limit_envelope \<and> null_limit_envelope \<noteq> JNull
   \<and> js_value infinite_limit_envelope \<and> infinite_limit_envelope \<noteq> JNull
   \<and> get_prop infinite_limit_envelope ''payload'' \<noteq> get_prop null_limit_envelope ''payload''
   \<and> verifyMessage toy_verify infinite_limit_envelope
       (JStr (signMessage toy_sign null_limit_envelope ''alice-key'')) (JStr ''alice-key'')"
  using limit_envelopes_js_value limit_envelopes_differ limit_envelopes_serialise_alike
  by (simp add: verifyMessage_def signMessage_def verify_payload_eq toy_verify_def toy_sign_def)

section \<open>Payload encryption: proofs\<close>

lemma encrypt_result:
  assumes b64: "\<forall>b. Buffer_from_base64 c (JStr (base64_encode c b)) = Some b"
    and spki: "\<forall>p. createPublicKey_spki c (export_spki c p) = Some p"
  shows "encryptPayloadX25519 c eph nonce (Some P)
           (Some (JStr (base64_encode c (export_spki c (x25519_publicKey c K)))))
     = Some (JObj
         [(''_encrypted'', JBool True),
          (''ephemeralPub'', JStr (base64_encode c (export_spki c (x25519_publicKey c eph)))),
          (''nonce'', JStr (base64_encode c nonce)),
          (''ciphertext'', JStr (base64_encode c
              (fst (aes_256_gcm_encrypt c (derive_aes_key c eph (x25519_publicKey c K)) nonce
                      (JSON_stringify P))))),
          (''tag'', JStr (base64_encode c
              (snd (aes_256_gcm_encrypt c (derive_aes_key c eph (x25519_publicKey c K)) nonce
                      (JSON_stringify P)))))])"
  using b64 spki
  by (simp add: encryptPayloadX25519_def buffer_from_def Let_def case_prod_beta)

lemma decrypt_encrypted:
  assumes b64: "\<forall>b. Buffer_from_base64 c (JStr (base64_encode c b)) = Some b"
    and spki: "\<forall>p. createPublicKey_spki c (export_spki c p) = Some p"
  shows "decryptPayloadX25519 c
       (JObj [(''_encrypted'', JBool True),
          (''ephemeralPub'', JStr (base64_encode c (export_spki c ephPub))),
          (''nonce'', JStr (base64_encode c nonce)),
          (''ciphertext'', JStr (base64_encode c ct)),
          (''tag'', JStr (base64_encode c tag))]) key
     = (case aes_256_gcm_decrypt c (derive_aes_key c key ephPub) nonce ct tag of
          None \<Rightarrow> None
        | Some decrypted \<Rightarrow> JSON_parse c decrypted)"
  using b64 spki
  by (simp add: decryptPayloadX25519_def buffer_from_def Let_def)

lemma derive_agree:
  assumes dh: "\<forall>a b. diffieHellman c a (x25519_publicKey c b) = diffieHellman c b (x25519_publicKey c a)"
  shows "derive_aes_key c K (x25519_publicKey c eph) = derive_aes_key c eph (x25519_publicKey c K)"
  using dh by (simp add: derive_aes_key_def)

text \<open>
  C10. Assume the primitives behave as specified: base64 and SPKI export/import round
  trips, the key agreement is symmetric, AES-GCM decryption under the encryption key
  returns the plaintext and under any other key fails authentication, and the JSON
  parser reads the serialised payload back. Then encrypting \<open>P\<close> to the public key of
  \<open>K\<close> yields an encrypted payload object that \<^verbatim>\<open>decryptPayloadX25519\<close> with \<open>K\<close> turns
  back into \<open>P\<close>; with a private key that does not derive the same message key it
  returns the failure value, never a plaintext.
\<close>

theorem encryption_round_trip:
  assumes b64: "\<forall>b. Buffer_from_base64 c (JStr (base64_encode c b)) = Some b"
    and spki: "\<forall>p. createPublicKey_spki c (export_spki c p) = Some p"
    and dh: "\<forall>a b. diffieHellman c a (x25519_publicKey c b) = diffieHellman c b (x25519_publicKey c a)"
    and aead: "\<forall>k iv pt. aes_256_gcm_decrypt c k iv (fst (aes_256_gcm_encrypt c k iv pt))
                  (snd (aes_256_gcm_encrypt c k iv pt)) = Some pt"
    and auth: "\<forall>k k' iv pt. k' \<noteq> k \<longrightarrow>
                 aes_256_gcm_decrypt c k' iv (fst (aes_256_gcm_encrypt c k iv pt))
                  (snd (aes_256_gcm_encrypt c k iv pt)) = None"
    and parse: "JSON_parse c (JSON_stringify P) = Some P"
  shows "\<exists>enc. encryptPayloadX25519 c eph nonce (Some P)
               (Some (JStr (base64_encode c (export_spki c (x25519_publicKey c K))))) = Some enc
           \<and> isEncrypted (Some enc)
           \<and> decryptPayloadX25519 c enc K = Some P
           \<and> (\<forall>K'. derive_aes_key c K' (x25519_publicKey c eph)
                      \<noteq> derive_aes_key c K (x25519_publicKey c eph) \<longrightarrow>
                  decryptPayloadX25519 c enc K' = None)"
proof -
  let ?k = "derive_aes_key c eph (x25519_publicKey c K)"
  let ?ct = "fst (aes_256_gcm_encrypt c ?k nonce (JSON_stringify P))"
  let ?tag = "snd (aes_256_gcm_encrypt c ?k nonce (JSON_stringify P))"
  let ?enc = "JObj [(''_encrypted'', JBool True),
          (''ephemeralPub'', JStr (base64_encode c (export_spki c (x25519_publicKey c eph)))),
          (''nonce'', JStr (base64_encode c nonce)),
          (''ciphertext'', JStr (base64_encode c ?ct)),
          (''tag'', JStr (base64_encode c ?tag))]"
  have e: "encryptPayloadX25519 c eph nonce (Some P)
               (Some (JStr (base64_encode c (export_spki c (x25519_publicKey c K))))) = Some ?enc"
    by (rule encrypt_result [OF b64 spki])
  have i: "isEncrypted (Some ?enc)" by (simp add: isEncrypted_def)
  have d: "decryptPayloadX25519 c ?enc key
     = (case aes_256_gcm_decrypt c (derive_aes_key c key (x25519_publicKey c eph)) nonce ?ct ?tag of
          None \<Rightarrow> None | Some decrypted \<Rightarrow> JSON_parse c decrypted)" for key
    by (rule decrypt_encrypted [OF b64 spki])
  have dk: "derive_aes_key c K (x25519_publicKey c eph) = ?k"
    by (rule derive_agree [OF dh])
  have "aes_256_gcm_decrypt c ?k nonce ?ct ?tag = Some (JSON_stringify P)"
    using aead by blast
  then have ok: "decryptPayloadX25519 c ?enc K = Some P"
    unfolding d [of K] dk using parse by simp
  have bad: "decryptPayloadX25519 c ?enc K' = None"
    if "derive_aes_key c K' (x25519_publicKey c eph) \<noteq> derive_aes_key c K (x25519_publicKey c eph)"
    for K'
  proof -
    from that have "derive_aes_key c K' (x25519_publicKey c eph) \<noteq> ?k"
      unfolding dk .
    with auth have "aes_256_gcm_decrypt c (derive_aes_key c K' (x25519_publicKey c eph)) nonce ?ct ?tag
        = None" by blast
    then show ?thesis unfolding d [of K'] by simp
  qed
  from e i ok bad show ?thesis by blast
qed

lemma toy_crypto_laws:
  "\<forall>b. Buffer_from_base64 (toy_crypto d) (JStr (base64_encode (toy_crypto d) b)) = Some b"
  "\<forall>p. createPublicKey_spki (toy_crypto d) (export_spki (toy_crypto d) p) = Some p"
  "\<forall>a b. diffieHellman (toy_crypto d) a (x25519_publicKey (toy_crypto d) b)
       = diffieHellman (toy_crypto d) b (x25519_publicKey (toy_crypto d) a)"
  "\<forall>k iv pt. aes_256_gcm_decrypt (toy_crypto d) k iv (fst (aes_256_gcm_encrypt (toy_crypto d) k iv pt))
                  (snd (aes_256_gcm_encrypt (toy_crypto d) k iv pt)) = Some pt"
  "\<forall>k k' iv pt. k' \<noteq> k \<longrightarrow>
       aes_256_gcm_decrypt (toy_crypto d) k' iv (fst (aes_256_gcm_encrypt (toy_crypto d) k iv pt))
                  (snd (aes_256_gcm_encrypt (toy_crypto d) k iv pt)) = None"
  "JSON_parse (toy_crypto d) (JSON_stringify d) = Some d"
  by (simp_all add: toy_crypto_def mult.commute)

lemma toy_recipient_key:
  "base64_encode (toy_crypto d) (export_spki (toy_crypto d) (x25519_publicKey (toy_crypto d) 3)) = ''kkk''"
  by (simp add: toy_crypto_def numeral_3_eq_3)

lemma toy_other_key:
  "derive_aes_key (toy_crypto d) 4 (x25519_publicKey (toy_crypto d) 2)
     \<noteq> derive_aes_key (toy_crypto d) 3 (x25519_publicKey (toy_crypto d) 2)"
proof
  assume "derive_aes_key (toy_crypto d) 4 (x25519_publicKey (toy_crypto d) 2)
     = derive_aes_key (toy_crypto d) 3 (x25519_publicKey (toy_crypto d) 2)"
  then have "length (derive_aes_key (toy_crypto d) 4 (x25519_publicKey (toy_crypto d) 2))
     = length (derive_aes_key (toy_crypto d) 3 (x25519_publicKey (toy_crypto d) 2))"
    by simp
  then show False by (simp add: derive_aes_key_def toy_crypto_def)
qed

theorem encryption_round_trip_witness:
  "decryptPayloadX25519 (toy_crypto example_payload)
      (the (encryptPayloadX25519 (toy_crypto example_payload) 2 ''nonce'' (Some example_payload)
              (Some (JStr ''kkk'')))) 3 = Some example_payload
   \<and> decryptPayloadX25519 (toy_crypto example_payload)
      (the (encryptPayloadX25519 (toy_crypto example_payload) 2 ''nonce'' (Some example_payload)
              (Some (JStr ''kkk'')))) 4 = None"
proof -
  from encryption_round_trip [OF toy_crypto_laws, of example_payload 2 "''nonce''" 3]
  obtain enc where
    e: "encryptPayloadX25519 (toy_crypto example_payload) 2 ''nonce'' (Some example_payload)
           (Some (JStr ''kkk'')) = Some enc"
    and ok: "decryptPayloadX25519 (toy_crypto example_payload) enc 3 = Some example_payload"
    and bad: "\<forall>K'. derive_aes_key (toy_crypto example_payload) K'
                    (x25519_publicKey (toy_crypto example_payload) 2)
               \<noteq> derive_aes_key (toy_crypto example_payload) 3
                    (x25519_publicKey (toy_crypto example_payload) 2) \<longrightarrow>
             decryptPayloadX25519 (toy_crypto example_payload) enc K' = None"
    unfolding toy_recipient_key by blast
  from bad toy_other_key have "decryptPayloadX25519 (toy_crypto example_payload) enc 4 = None"
    by blast
  with ok show ?thesis unfolding e by simp
qed

section \<open>Ingress handler: proofs\<close>







































section \<open>Conversation state machine: proofs\<close>

lemma transitions_lookup:
  "map_of TRANSITIONS s = Some allowed \<Longrightarrow> n \<in> set allowed \<Longrightarrow> (s, n) \<in> set admitted_moves"
  by (auto simp: TRANSITIONS_def admitted_moves_def split: if_splits)

lemma admitted_lookup:
  "(s, n) \<in> set admitted_moves \<Longrightarrow> \<exists>allowed. map_of TRANSITIONS s = Some allowed \<and> n \<in> set allowed"
  by (auto simp: TRANSITIONS_def admitted_moves_def)

lemma terminal_no_move:
  "s \<in> set terminal_states \<Longrightarrow> (s, n) \<notin> set admitted_moves"
  by (auto simp: terminal_states_def admitted_moves_def STATES_CONFIRMED_def
      STATES_REJECTED_def STATES_EXPIRED_def)

lemma transitionState_success_iff:
  "(fst (transitionState now store cid n) \<noteq> None) =
   (\<exists>m. store cid = Some m \<and> (state m, n) \<in> set admitted_moves)"
  by (auto simp: transitionState_def getConversation_def Let_def
      dest: transitions_lookup admitted_lookup split: option.splits)

lemma transitionState_failure_noop:
  "fst (transitionState now store cid n) = None \<Longrightarrow> snd (transitionState now store cid n) = store"
  by (auto simp: transitionState_def getConversation_def Let_def split: option.splits if_splits)

lemma transitionState_terminal:
  assumes "store cid = Some m" and "state m \<in> set terminal_states"
  shows "transitionState now store cid n = (None, store)"
proof -
  have "(state m, n) \<notin> set admitted_moves"
    using assms(2) by (rule terminal_no_move)
  with assms(1) have "fst (transitionState now store cid n) = None"
    using transitionState_success_iff [of now store cid n] by auto
  then show ?thesis
    using transitionState_failure_noop [of now store cid n] by (simp add: prod_eq_iff)
qed

lemma transitionState_other:
  "c \<noteq> cid \<Longrightarrow> snd (transitionState now store cid n) c = store c"
  by (auto simp: transitionState_def getConversation_def Let_def split: option.splits)

lemma run_transitions_terminal:
  "store c = Some m \<Longrightarrow> state m \<in> set terminal_states \<Longrightarrow> run_transitions store reqs c = Some m"
proof (induction reqs arbitrary: store)
  case Nil
  then show ?case by simp
next
  case (Cons r reqs)
  obtain now cid n where r: "r = (now, cid, n)" by (cases r) auto
  have "snd (transitionState now store cid n) c = Some m"
  proof (cases "c = cid")
    case True
    then show ?thesis using Cons.prems transitionState_terminal [of store cid m now n] by simp
  next
    case False
    then show ?thesis using Cons.prems transitionState_other [of c cid now store n] by simp
  qed
  then show ?case using Cons.IH Cons.prems(2) r by simp
qed

text \<open>
  C7. The state machine admits exactly the moves proposed to negotiating, confirmed,
  rejected, expired and negotiating to confirmed, rejected, expired. A request succeeds
  only for a stored conversation and one of these moves; a conversation whose state is
  confirmed, rejected or expired is never changed by any sequence of transition requests;
  and a request that returns the error value leaves the whole store (every state and
  every updatedAt) as it was.
\<close>

theorem transition_state_machine_sound:
  "((fst (transitionState now store cid n) \<noteq> None) =
      (\<exists>m. store cid = Some m \<and> (state m, n) \<in> set admitted_moves))
   \<and> (\<forall>m. store cid = Some m \<and> state m \<in> set terminal_states \<longrightarrow>
         transitionState now store cid n = (None, store)
         \<and> run_transitions store reqs cid = Some m)
   \<and> (fst (transitionState now store cid n) = None \<longrightarrow>
         snd (transitionState now store cid n) = store)"
  using transitionState_success_iff [of now store cid n]
    transitionState_failure_noop [of now store cid n]
    transitionState_terminal [of store cid _ now n]
    run_transitions_terminal [of store cid _ reqs]
  by blast

theorem transition_state_machine_sound_witness:
  "transitionState 3000 (Map.empty(''c1'' \<mapsto> example_conversation)) ''c1'' ''proposed''
     = (None, Map.empty(''c1'' \<mapsto> example_conversation))
   \<and> run_transitions (Map.empty(''c1'' \<mapsto> example_conversation))
        [(3000, ''c1'', ''negotiating''), (4000, ''c1'', ''expired'')] ''c1''
     = Some example_conversation
   \<and> fst (transitionState 3000 (Map.empty(''c1'' \<mapsto> example_conversation)) ''c1'' ''proposed'') = None"
  using transition_state_machine_sound
    [of 3000 "Map.empty(''c1'' \<mapsto> example_conversation)" "''c1''" "''proposed''"
        "[(3000, ''c1'', ''negotiating''), (4000, ''c1'', ''expired'')]"]
  by (simp add: example_conversation_def terminal_states_def STATES_CONFIRMED_def)

section \<open>Server: proofs\<close>



lemma commerce_handlers_found:
  "s \<in> set commerce_intents \<Longrightarrow> \<exists>h. map_of HANDLERS s = Some h
     \<and> (\<forall>p f. \<not> nullish p \<and> \<not> nullish f \<longrightarrow> (\<exists>r. h p f = Some r))
     \<and> (\<forall>p f. nullish p \<or> nullish f \<longrightarrow> h p f = None)"
  by (auto simp: HANDLERS_def commerce_intents_def handleCommerceRequest_def handleCommerceOffer_def
      handleCommerceAccept_def handleCommerceReject_def)

lemma commerce_always:
  "s \<in> set commerce_intents \<Longrightarrow> always_approve_includes (Some (JStr s))"
  by (auto simp: commerce_intents_def always_approve_includes_def ALWAYS_APPROVE_def)

lemma requiresApproval_always:
  "always_approve_includes intent \<Longrightarrow> requiresApproval cs agent intent ty"
  by (simp add: requiresApproval_def)

lemma handleRequest_commerce_shape:
  assumes i: "get_prop env ''intent'' = Some (JStr s)"
    and r: "s \<in> set commerce_intents"
    and p: "\<not> nullish (get_prop env ''payload'')"
    and f: "\<not> nullish (get_prop env ''from'')"
  shows "handleRequest now st env =
    (case savePendingApproval (get_prop env ''id'')
            \<lparr> pa_envelope = env, pa_handler = Some (JStr s), pa_isInform = False,
              pa_createdAt = now \<rparr> st of
       None \<Rightarrow> (None, st)
     | Some st1 \<Rightarrow>
        (case server_transition now (get_prop env ''conversation'') STATES_NEGOTIATING st1 of
           None \<Rightarrow> (None, st1)
         | Some st2 \<Rightarrow> (Some (pending_reply env), st2)))"
proof -
  from commerce_handlers_found [OF r] p f obtain h res where
    h: "map_of HANDLERS s = Some h"
    and hr: "h (get_prop env ''payload'') (get_prop env ''from'') = Some res"
    by blast
  have g: "getHandler (Some (JStr s)) = Some (Registered h)"
    using h by (simp add: getHandler_def property_key_def)
  have c: "call_handler (Registered h) (get_prop env ''payload'') (get_prop env ''from'') = Some res"
    using hr by (simp add: call_handler_def)
  have a: "requiresApproval (srv_contacts st) (opt_prop (get_prop env ''from'') ''agent'')
             (Some (JStr s)) (get_prop env ''type'')"
    using commerce_always [OF r] by (rule requiresApproval_always)
  show ?thesis
    unfolding handleRequest_def i pending_reply_def
    by (simp add: g c a Let_def)
qed





lemma handleRequest_commerce_unwritable:
  assumes i: "get_prop env ''intent'' = Some (JStr s)"
    and r: "s \<in> set commerce_intents"
    and p: "\<not> nullish (get_prop env ''payload'')"
    and f: "\<not> nullish (get_prop env ''from'')"
    and w: "\<not> write_ok (srv_env st) (pendingPath (srv_env st) (get_prop env ''id''))"
  shows "handleRequest now st env = (None, st)"
  unfolding handleRequest_commerce_shape [OF i r p f]
  using w by (simp add: savePendingApproval_def Let_def)







lemma slash_envelope_facts:
  "get_prop slash_envelope ''intent'' = Some (JStr ''commerce.request'')"
  "\<not> nullish (get_prop slash_envelope ''payload'')"
  "\<not> nullish (get_prop slash_envelope ''from'')"
  "get_prop slash_envelope ''id'' = Some (JStr ''a/b'')"
  "\<not> write_ok (srv_env example_server)
       (pendingPath (srv_env example_server) (get_prop slash_envelope ''id''))"
  by (simp_all add: slash_envelope_def quote_envelope_def nullish_def example_server_def
      example_env_def pendingPath_def PENDING_DIR_def property_key_def)

text \<open>
  A commerce request whose id is \<^verbatim>\<open>a/b\<close> names a file in a directory that does not exist:
  the write throws and no pending approval is stored.
\<close>

lemma slash_id_request_throws:
  "handleRequest 1000 example_server slash_envelope = (None, example_server)"
  using slash_envelope_facts
  by (intro handleRequest_commerce_unwritable [where s = "''commerce.request''"])
     (simp_all add: commerce_intents_def)












section \<open>Outbound queue: proofs\<close>

lemma attempt_fail_final:
  assumes "loadEntry w q = Some e" "live e" "attempt e + 1 \<ge> maxRetries e"
  shows "snd (attemptDelivery now (SendError m) onFailure w q) =
      w\<lparr> outbox := (outbox w)(entryPath (q_env w) q \<mapsto> failed_entry now m e),
         failure_calls := failure_calls w @ failure_notifications onFailure (failed_entry now m e) \<rparr>"
  using assms
  by (cases onFailure)
     (simp_all add: attemptDelivery_def loadEntry_def updateEntry_def Let_def failed_entry_def
        live_def failure_notifications_def)

lemma attempt_fail_retry:
  assumes "loadEntry w q = Some e" "live e" "attempt e + 1 < maxRetries e"
  shows "attemptDelivery now (SendError m) onFailure w q =
     (Some False,
      w\<lparr> outbox := (outbox w)(entryPath (q_env w) q \<mapsto> retrying_entry now m e),
         retryTimers := (retryTimers w)(q \<mapsto> retry_delay (retrying_entry now m e)) \<rparr>)"
  using assms
  by (simp add: attemptDelivery_def loadEntry_def updateEntry_def Let_def retrying_entry_def live_def)

lemma attempt_final_noop:
  assumes "loadEntry w q = Some e" "\<not> live e"
  shows "attemptDelivery now r onFailure w q = (Some False, w)"
  using assms by (auto simp: attemptDelivery_def live_def)

lemma exhaustion:
  "\<forall>n. \<exists>m. send n = SendError m \<Longrightarrow> loadEntry w q = Some e \<Longrightarrow> live e \<Longrightarrow>
    \<exists>e'. loadEntry (deliver_with_retries send onFailure now w q) q = Some e'
       \<and> status e' = ''failed''
       \<and> attempt e' = max (attempt e + 1) (maxRetries e)
       \<and> q_envelope e' = q_envelope e
       \<and> failure_calls (deliver_with_retries send onFailure now w q)
           = failure_calls w @ failure_notifications onFailure e'
       \<and> dead_letters (deliver_with_retries send onFailure now w q) = dead_letters w
       \<and> retryTimers (deliver_with_retries send onFailure now w q) q = None"
proof (induction send onFailure now w q arbitrary: e rule: deliver_with_retries.induct)
  case (1 send onFailure now w q)
  let ?w0 = "w\<lparr> retryTimers := (retryTimers w)(q := None) \<rparr>"
  have o0: "loadEntry ?w0 q = Some e" using "1.prems" by (simp add: loadEntry_def)
  obtain m where m: "send (next_attempt ?w0 q) = SendError m"
    using "1.prems"(1) by blast
  show ?case
  proof (cases "attempt e + 1 \<ge> maxRetries e")
    case True
    have a: "snd (attemptDelivery now (send (next_attempt ?w0 q)) onFailure ?w0 q) =
        ?w0\<lparr> outbox := (outbox ?w0)(entryPath (q_env ?w0) q \<mapsto> failed_entry now m e),
             failure_calls := failure_calls ?w0
                @ failure_notifications onFailure (failed_entry now m e) \<rparr>"
      unfolding m using o0 "1.prems"(3) True by (rule attempt_fail_final)
    show ?thesis
      using True
      by (subst deliver_with_retries.simps, subst deliver_with_retries.simps,
          subst deliver_with_retries.simps, subst deliver_with_retries.simps)
         (simp add: a Let_def failed_entry_def max_def loadEntry_def)
  next
    case False
    then have lt: "attempt e + 1 < maxRetries e" by simp
    let ?e1 = "retrying_entry now m e"
    let ?w' = "?w0\<lparr> outbox := (outbox ?w0)(entryPath (q_env ?w0) q \<mapsto> ?e1),
                retryTimers := (retryTimers ?w0)(q \<mapsto> retry_delay ?e1) \<rparr>"
    have a: "attemptDelivery now (send (next_attempt ?w0 q)) onFailure ?w0 q = (Some False, ?w')"
      unfolding m using o0 "1.prems"(3) lt by (rule attempt_fail_retry)
    have w': "snd (attemptDelivery now (send (next_attempt ?w0 q)) onFailure ?w0 q) = ?w'"
      by (simp add: a)
    have t: "retryTimers ?w' q = Some (retry_delay ?e1)" by simp
    have o1: "loadEntry ?w' q = Some ?e1" by (simp add: loadEntry_def)
    have l1: "live ?e1" by (simp add: live_def retrying_entry_def)
    from "1.IH" [OF refl w' [symmetric] t "1.prems"(1) o1 l1]
    obtain e' where e':
      "loadEntry (deliver_with_retries send onFailure (now + timer_delay (retry_delay ?e1)) ?w' q) q
         = Some e'"
      "status e' = ''failed''"
      "attempt e' = max (attempt ?e1 + 1) (maxRetries ?e1)"
      "q_envelope e' = q_envelope ?e1"
      "failure_calls (deliver_with_retries send onFailure (now + timer_delay (retry_delay ?e1)) ?w' q)
         = failure_calls ?w' @ failure_notifications onFailure e'"
      "dead_letters (deliver_with_retries send onFailure (now + timer_delay (retry_delay ?e1)) ?w' q)
         = dead_letters ?w'"
      "retryTimers (deliver_with_retries send onFailure (now + timer_delay (retry_delay ?e1)) ?w' q) q
         = None"
      by blast
    have unfold: "deliver_with_retries send onFailure now w q
        = deliver_with_retries send onFailure (now + timer_delay (retry_delay ?e1)) ?w' q"
      by (subst deliver_with_retries.simps) (simp add: a Let_def)
    show ?thesis
      unfolding unfold using e' lt by (simp add: retrying_entry_def max_def)
  qed
qed

lemma exhausted_noop:
  "loadEntry w q = Some e \<Longrightarrow> status e = ''failed'' \<Longrightarrow>
     attemptDelivery now r onFailure w q = (Some False, w)"
  by (rule attempt_final_noop) (auto simp: live_def)

text \<open>
  C8 (as the code has it). Take a queue entry that is neither delivered nor failed, and
  let every send fail with an error. Then the chain of attempts ends; the entry is still
  in the outbox, now with status failed, after \<open>max (attempt + 1) maxRetries\<close> attempts in
  all; the \<^verbatim>\<open>onFailure\<close> callback has been called exactly once, with that entry, if the
  caller passed one, and nothing has been notified if it passed none; no retry is
  scheduled; the dead-letter directory is as it was; and any further attempt on the entry
  returns false and changes nothing.
\<close>

theorem queue_exhaustion_marks_failed:
  "(\<forall>n. \<exists>m. send n = SendError m) \<and> loadEntry w q = Some e
     \<and> status e \<noteq> ''delivered'' \<and> status e \<noteq> ''failed'' \<longrightarrow>
   (\<exists>e'. loadEntry (deliver_with_retries send onFailure now w q) q = Some e'
       \<and> status e' = ''failed''
       \<and> attempt e' = max (attempt e + 1) (maxRetries e)
       \<and> q_envelope e' = q_envelope e
       \<and> failure_calls (deliver_with_retries send onFailure now w q)
           = failure_calls w @ (case onFailure of None \<Rightarrow> [] | Some callback \<Rightarrow> [(callback, e')])
       \<and> dead_letters (deliver_with_retries send onFailure now w q) = dead_letters w
       \<and> retryTimers (deliver_with_retries send onFailure now w q) q = None
       \<and> (\<forall>now' r callback'.
             attemptDelivery now' r callback' (deliver_with_retries send onFailure now w q) q
             = (Some False, deliver_with_retries send onFailure now w q)))"
proof (intro impI, elim conjE)
  assume a: "\<forall>n. \<exists>m. send n = SendError m" "loadEntry w q = Some e"
    "status e \<noteq> ''delivered''" "status e \<noteq> ''failed''"
  then have "live e" by (simp add: live_def)
  from exhaustion [OF a(1,2) this, of onFailure now] obtain e' where e':
    "loadEntry (deliver_with_retries send onFailure now w q) q = Some e'"
    "status e' = ''failed''"
    "attempt e' = max (attempt e + 1) (maxRetries e)"
    "q_envelope e' = q_envelope e"
    "failure_calls (deliver_with_retries send onFailure now w q)
       = failure_calls w @ failure_notifications onFailure e'"
    "dead_letters (deliver_with_retries send onFailure now w q) = dead_letters w"
    "retryTimers (deliver_with_retries send onFailure now w q) q = None"
    by blast
  have n: "\<forall>now' r callback'.
      attemptDelivery now' r callback' (deliver_with_retries send onFailure now w q) q
        = (Some False, deliver_with_retries send onFailure now w q)"
    using exhausted_noop [OF e'(1,2)] by blast
  have f: "failure_calls (deliver_with_retries send onFailure now w q)
       = failure_calls w @ (case onFailure of None \<Rightarrow> [] | Some callback \<Rightarrow> [(callback, e')])"
    using e'(5) by (simp add: failure_notifications_def)
  from e'(1-4) f e'(6,7) n
  show "\<exists>e'. loadEntry (deliver_with_retries send onFailure now w q) q = Some e'
       \<and> status e' = ''failed''
       \<and> attempt e' = max (attempt e + 1) (maxRetries e)
       \<and> q_envelope e' = q_envelope e
       \<and> failure_calls (deliver_with_retries send onFailure now w q)
           = failure_calls w @ (case onFailure of None \<Rightarrow> [] | Some callback \<Rightarrow> [(callback, e')])
       \<and> dead_letters (deliver_with_retries send onFailure now w q) = dead_letters w
       \<and> retryTimers (deliver_with_retries send onFailure now w q) q = None
       \<and> (\<forall>now' r callback'.
             attemptDelivery now' r callback' (deliver_with_retries send onFailure now w q) q
             = (Some False, deliver_with_retries send onFailure now w q))"
    by blast
qed

lemma example_entry_path: "entryPath example_env ''e1'' = ''/srv/skill/outbox/e1.json''"
  by (simp add: entryPath_def OUTBOX_DIR_def example_env_def)

lemma example_enqueued:
  "enqueue 0 ''uuid-1'' empty_world ''http://localhost:1/ai2ai'' example_envelope None None
     = Some (''e1'', empty_world\<lparr> outbox := Map.empty(''/srv/skill/outbox/e1.json'' \<mapsto>
          \<lparr> q_id = ''e1'', q_endpoint = ''http://localhost:1/ai2ai'', q_envelope = example_envelope,
            q_createdAt = 0, attempt = 0, maxRetries = 5, retryDelays = DEFAULT_RETRY_DELAYS,
            lastAttempt = None, lastError = Some JNull, status = ''queued'',
            deliveredAt = None \<rparr>) \<rparr>)"
proof -
  have i: "get_prop example_envelope ''id'' = Some (JStr ''e1'')"
    by (simp add: example_envelope_def)
  have l: "length DEFAULT_RETRY_DELAYS = 5"
    by (simp add: DEFAULT_RETRY_DELAYS_def)
  have e: "q_env empty_world = example_env" by (simp add: empty_world_def)
  have w: "write_ok example_env ''/srv/skill/outbox/e1.json''"
    by (simp add: example_env_def)
  show ?thesis
    unfolding enqueue_def i l e
    by (simp add: property_key_def Let_def example_entry_path w) (simp add: empty_world_def)
qed

theorem queue_exhaustion_marks_failed_witness:
  "(\<exists>e'. loadEntry example_exhausted_world ''e1'' = Some e'
     \<and> status e' = ''failed'' \<and> attempt e' = 5
     \<and> failure_calls example_exhausted_world = [(Callback ''notifyHuman'' False, e')]
     \<and> dead_letters example_exhausted_world = [])
   \<and> (\<exists>e'. loadEntry example_resumed_world ''e1'' = Some e'
     \<and> status e' = ''failed'' \<and> attempt e' = 5
     \<and> failure_calls example_resumed_world = []
     \<and> dead_letters example_resumed_world = [])"
proof -
  let ?e = "\<lparr> q_id = ''e1'', q_endpoint = ''http://localhost:1/ai2ai'', q_envelope = example_envelope,
            q_createdAt = 0, attempt = 0, maxRetries = 5, retryDelays = DEFAULT_RETRY_DELAYS,
            lastAttempt = None, lastError = Some JNull, status = ''queued'', deliveredAt = None \<rparr>"
  let ?w = "empty_world\<lparr> outbox := Map.empty(''/srv/skill/outbox/e1.json'' \<mapsto> ?e) \<rparr>"
  have w: "example_exhausted_world
      = deliver_with_retries always_refused (Some (Callback ''notifyHuman'' False)) 0 ?w ''e1''"
    by (simp add: example_exhausted_world_def queueAndSend_def example_enqueued)
  have r: "example_resumed_world = deliver_with_retries always_refused None 0 ?w ''e1''"
    by (simp add: example_resumed_world_def example_enqueued)
  have h: "(\<forall>n. \<exists>m. always_refused n = SendError m) \<and> loadEntry ?w ''e1'' = Some ?e
     \<and> status ?e \<noteq> ''delivered'' \<and> status ?e \<noteq> ''failed''"
    by (simp add: always_refused_def loadEntry_def empty_world_def example_entry_path)
  from queue_exhaustion_marks_failed [of always_refused ?w "''e1''" ?e "Some (Callback ''notifyHuman'' False)" 0] h
  have 1: "\<exists>e'. loadEntry example_exhausted_world ''e1'' = Some e'
     \<and> status e' = ''failed'' \<and> attempt e' = 5
     \<and> failure_calls example_exhausted_world = [(Callback ''notifyHuman'' False, e')]
     \<and> dead_letters example_exhausted_world = []"
    unfolding w by (auto simp: empty_world_def)
  from queue_exhaustion_marks_failed [of always_refused ?w "''e1''" ?e None 0] h
  have 2: "\<exists>e'. loadEntry example_resumed_world ''e1'' = Some e'
     \<and> status e' = ''failed'' \<and> attempt e' = 5
     \<and> failure_calls example_resumed_world = []
     \<and> dead_letters example_resumed_world = []"
    unfolding r by (auto simp: empty_world_def)
  from 1 2 show ?thesis by (rule conjI)
qed

lemma example_exhausted_dead_letters: "dead_letters example_exhausted_world = []"
  by code_simp

lemma example_exhausted_failures: "length (failure_calls example_exhausted_world) = 1"
  by code_simp

lemma example_exhausted_status:
  "map_option status (loadEntry example_exhausted_world ''e1'') = Some ''failed''"
  by code_simp

lemma example_resumed_failures: "failure_calls example_resumed_world = []"
  by code_simp

lemma example_resumed_status:
  "map_option status (loadEntry example_resumed_world ''e1'') = Some ''failed''"
  by code_simp

text \<open>
  The claim as worded (one dead-letter entry and one failed event per exhausted envelope)
  fails on the code: after five refused attempts the entry is marked failed in the outbox
  and the dead-letter directory holds no entry; one failure callback has run when one was
  passed, and none when the queue was resumed without a callback.
\<close>

theorem dead_letter_counterexample:
  "map_option status (loadEntry example_exhausted_world ''e1'') = Some ''failed''
   \<and> length (failure_calls example_exhausted_world) = 1
   \<and> length (dead_letters example_exhausted_world) \<noteq> 1
   \<and> map_option status (loadEntry example_resumed_world ''e1'') = Some ''failed''
   \<and> length (failure_calls example_resumed_world) \<noteq> 1"
  using example_exhausted_status example_exhausted_failures example_exhausted_dead_letters
    example_resumed_status example_resumed_failures
  by simp

end
